theory Spec2Isabelle
  imports Main
begin

section \<open>Data model of \<open>client.ts\<close>\<close>

text \<open>
  The error codes the client singles out (\<open>client.ts\<close>, lines 17-19).
\<close>

definition NO_SUCH_METHOD_ERROR_CODE :: int where
  "NO_SUCH_METHOD_ERROR_CODE = 103"

definition NO_PERMISSIONS_ERROR_CODE :: int where
  "NO_PERMISSIONS_ERROR_CODE = 105"

definition SESSION_TIMEOUT_ERROR_CODE :: int where
  "SESSION_TIMEOUT_ERROR_CODE = 106"

text \<open>
  \<open>Partial<SynologyClientSettings>\<close>: every field may be absent (\<open>None\<close> is
  JavaScript's \<open>undefined\<close>).
\<close>

record client_settings =
  baseUrl :: "string option"
  account :: "string option"
  passwd :: "string option"
  session :: "string option"

datatype setting_key = Key_baseUrl | Key_account | Key_passwd | Key_session

definition SETTING_NAME_KEYS :: "setting_key list" where
  "SETTING_NAME_KEYS = [Key_baseUrl, Key_account, Key_passwd, Key_session]"

text \<open>The indexing \<open>settings[k]\<close>.\<close>

fun field :: "client_settings \<Rightarrow> setting_key \<Rightarrow> string option" where
  "field s Key_baseUrl = baseUrl s"
| "field s Key_account = account s"
| "field s Key_passwd = passwd s"
| "field s Key_session = session s"

text \<open>
  Modelled from the spec: the error classes \<open>BadResponseError\<close>, \<open>NetworkError\<close> and
  \<open>TimeoutError\<close> are imported from \<open>./shared\<close>, which is not among the sources. The
  transport raises "distinguishable exceptions for malformed-response,
  network-unreachable, and timeout conditions"; \<open>BadResponseError\<close> carries the HTTP
  status of its response, and \<open>OtherError\<close> stands for any other thrown value.
\<close>

datatype thrown =
  BadResponseError int
| NetworkError
| TimeoutError
| OtherError string

text \<open>
  \<open>RestApiResponse<T>\<close>: a success with its payload, or a failure with \<open>error.code\<close>.
  A call of the transport settles either way: it resolves with a response or rejects
  with a thrown error.
\<close>

datatype 'a rest_response = Success 'a | Failure int

datatype 'a net_outcome = Resolves "'a rest_response" | Rejects thrown

datatype connection_failure =
  Missing_config
| Probable_wrong_protocol thrown
| Probable_wrong_url_or_no_connection_or_cert_error thrown
| Timeout thrown
| Unknown thrown

text \<open>\<open>ConnectionFailure.from\<close> (lines 57-69).\<close>

fun ConnectionFailure_from :: "thrown \<Rightarrow> connection_failure" where
  "ConnectionFailure_from (BadResponseError status) =
     (if status = 400 then Probable_wrong_protocol (BadResponseError status)
      else Unknown (BadResponseError status))"
| "ConnectionFailure_from NetworkError =
     Probable_wrong_url_or_no_connection_or_cert_error NetworkError"
| "ConnectionFailure_from TimeoutError = Timeout TimeoutError"
| "ConnectionFailure_from (OtherError m) = Unknown (OtherError m)"

text \<open>
  \<open>ClientRequestResult<T>\<close>: the success response, the failure response extended with
  \<open>apiGroup\<close>, or a connection failure.
\<close>

datatype 'a client_result =
  Ok 'a
| ApiFailure int string
| ConnFailure connection_failure

text \<open>\<open>ClientRequestResult.from\<close> (lines 74-80).\<close>

fun ClientRequestResult_from :: "'a rest_response \<Rightarrow> string \<Rightarrow> 'a client_result" where
  "ClientRequestResult_from (Success d) apiGroup = Ok d"
| "ClientRequestResult_from (Failure c) apiGroup = ApiFailure c apiGroup"

text \<open>
  The requests that reach the network. \<open>'r\<close> is the optional \<open>BaseRequest\<close> a caller
  may pass, \<open>'o\<close> the options of the proxied endpoint. A login request carries the
  validated settings and the protocol version, a logout request the base URL, the
  session id and the session name, an endpoint request the base URL, the session id and
  the options.
\<close>

datatype ('r, 'o) request =
  AuthLoginReq client_settings "'r option" nat
| AuthLogoutReq "string option" "'r option" string "string option"
| EndpointReq "string option" string 'o

text \<open>
  The cached login promise. A promise is modelled by the value it settles to, which is
  what a caller that awaits it gets, whether it is still pending or not when the caller
  starts to wait; it never rejects, because the chain built in \<open>maybeLogin\<close> ends in
  \<open>.catch\<close>. Its identity is the position in the log of the request that created it.
  Every request is assumed to settle: a request that stays pending for ever is not
  modelled.
\<close>

datatype login_promise = LoginPromise (origin: nat) (settled: "string client_result")

text \<open>
  The fields of \<open>SynologyClient\<close>, and two logs that the class does not have: the
  network requests issued so far and the listeners invoked so far. The login at
  version 3, which the code issues once the login at version 2 has settled, is logged
  with it. The version is a
  JavaScript number that is only ever incremented; it is a natural number here (the
  increment is exact below \<open>2\<^sup>5\<^sup>3\<close>).
\<close>

record ('r, 'o) client =
  settings :: client_settings
  settingsVersion :: nat
  loginPromise :: "login_promise option"
  onSettingsChangeListeners :: "nat list"
  requests :: "('r, 'o) request list"
  invoked :: "nat list"

text \<open>
  \<open>Auth.Login\<close>, \<open>Auth.Logout\<close> and \<open>Auth.API_NAME\<close> come from \<open>./Auth\<close>, which is
  not among the sources: they are parameters. Each call is given the log up to and
  including its own request and settles to any outcome, so the server and the transport
  are unconstrained.
\<close>

record ('r, 'o) auth =
  Login :: "('r, 'o) request list \<Rightarrow> string net_outcome"
  Logout :: "('r, 'o) request list \<Rightarrow> unit net_outcome"
  API_NAME :: string

section \<open>Settings holder\<close>

text \<open>\<open>updateSettings\<close>' test \<open>SETTING_NAME_KEYS.some((k) => settings[k] !== this.settings[k])\<close>.\<close>

definition differs :: "client_settings \<Rightarrow> client_settings \<Rightarrow> bool" where
  "differs new old = list_ex (\<lambda>k. field new k \<noteq> field old k) SETTING_NAME_KEYS"

text \<open>\<open>getValidatedSettings\<close> (lines 120-131).\<close>

definition getValidatedSettings :: "('r, 'o) client \<Rightarrow> client_settings option" where
  "getValidatedSettings c =
     (if list_all (\<lambda>k. case field (settings c) k of None \<Rightarrow> False | Some v \<Rightarrow> length v > 0)
           SETTING_NAME_KEYS
      then Some (settings c) else None)"

section \<open>Session manager\<close>

text \<open>
  What \<open>maybeLogin\<close> returns: the \<open>missing-config\<close> failure, or the cached promise.
  (The \<open>async\<close> wrapper around either is not modelled: every caller awaits it.)
\<close>

datatype login_return = ReturnFailure connection_failure | ReturnPromise login_promise

fun awaited :: "login_return \<Rightarrow> string client_result" where
  "awaited (ReturnFailure f) = ConnFailure f"
| "awaited (ReturnPromise p) = settled p"

text \<open>
  How a request of the \<open>Auth\<close> group settles for the client: a response goes through
  \<open>ClientRequestResult.from\<close> with \<open>Auth.API_NAME\<close>, a thrown error through
  \<open>ConnectionFailure.from\<close> (the \<open>.then\<close> and \<open>.catch\<close> of lines 163-164, and the
  \<open>try\<close>/\<open>catch\<close> of lines 197-208).

  \<open>login_chain\<close> is the promise chain of lines 142-164: the request at version 2, the
  second request at version 3 when the first resolves to a failure with code 103, then
  \<open>settle\<close>. It returns the log and the settled value.
\<close>

definition settle :: "('r, 'o) auth \<Rightarrow> 'a net_outcome \<Rightarrow> 'a client_result" where
  "settle au outcome =
     (case outcome of
        Resolves response \<Rightarrow> ClientRequestResult_from response (API_NAME au)
      | Rejects e \<Rightarrow> ConnFailure (ConnectionFailure_from e))"

definition login_chain ::
  "('r, 'o) auth \<Rightarrow> client_settings \<Rightarrow> 'r option \<Rightarrow> ('r, 'o) request list
     \<Rightarrow> ('r, 'o) request list \<times> string client_result" where
  "login_chain au s request log =
     (let log2 = log @ [AuthLoginReq s request 2];
          first = Login au log2;
          (log3, final) =
            (case first of
               Resolves (Failure code) \<Rightarrow>
                 if code = NO_SUCH_METHOD_ERROR_CODE
                 then (let log3 = log2 @ [AuthLoginReq s request 3] in (log3, Login au log3))
                 else (log2, first)
             | _ \<Rightarrow> (log2, first))
      in (log3, settle au final))"

text \<open>\<open>maybeLogin\<close> (lines 133-168).\<close>

definition maybeLogin ::
  "('r, 'o) auth \<Rightarrow> 'r option \<Rightarrow> ('r, 'o) client \<Rightarrow> login_return \<times> ('r, 'o) client" where
  "maybeLogin au request c =
     (case getValidatedSettings c of
        None \<Rightarrow> (ReturnFailure Missing_config, c)
      | Some s \<Rightarrow>
          (case loginPromise c of
             Some p \<Rightarrow> (ReturnPromise p, c)
           | None \<Rightarrow>
               (let (log, result) = login_chain au s request (requests c);
                    p = LoginPromise (length (requests c)) result
                in (ReturnPromise p, c\<lparr>loginPromise := Some p, requests := log\<rparr>))))"

text \<open>What \<open>maybeLogout\<close> returns: the sentinel \<open>"not-logged-in"\<close>, or a result.\<close>

datatype logout_return = Not_logged_in | LogoutResult "unit client_result"

text \<open>
  \<open>maybeLogout\<close> (lines 177-213) in two parts. \<open>maybeLogout_start\<close> is what the call
  does before it gives up control (lines 180-191): it stashes the cached promise, reads
  the validated settings, clears the cache, and then either returns or reaches the
  \<open>await\<close> of the stashed promise (line 192), with the settings it has read.
  \<open>maybeLogout_resume\<close> is what it does when that promise has settled (lines 193-211),
  on the client as it then is. After the second \<open>await\<close>, of \<open>Auth.Logout\<close>, the code
  only returns.
\<close>

datatype logout_start = Returning logout_return | Awaiting login_promise client_settings

definition maybeLogout_start :: "('r, 'o) client \<Rightarrow> logout_start \<times> ('r, 'o) client" where
  "maybeLogout_start c =
     (let stashedLoginPromise = loginPromise c;
          validated = getValidatedSettings c;
          c1 = c\<lparr>loginPromise := None\<rparr>
      in case stashedLoginPromise of
           None \<Rightarrow> (Returning Not_logged_in, c1)
         | Some p \<Rightarrow>
             (case validated of
                None \<Rightarrow> (Returning (LogoutResult (ConnFailure Missing_config)), c1)
              | Some s \<Rightarrow> (Awaiting p s, c1)))"

definition maybeLogout_resume ::
  "('r, 'o) auth \<Rightarrow> 'r option \<Rightarrow> login_promise \<Rightarrow> client_settings \<Rightarrow> ('r, 'o) client
     \<Rightarrow> logout_return \<times> ('r, 'o) client" where
  "maybeLogout_resume au request p s c =
     (case settled p of
        ConnFailure f \<Rightarrow> (LogoutResult (ConnFailure f), c)
      | Ok sid \<Rightarrow>
          (let log = requests c @ [AuthLogoutReq (baseUrl s) request sid (session s)]
           in (LogoutResult (settle au (Logout au log)), c\<lparr>requests := log\<rparr>))
      | ApiFailure code g \<Rightarrow> (LogoutResult (ApiFailure code g), c))"

text \<open>
  \<open>maybeLogout\<close> when no other task touches the client while it waits: the logout that
  \<open>updateSettings\<close> starts, and the logouts of other tasks, are taken so.
\<close>

definition maybeLogout ::
  "('r, 'o) auth \<Rightarrow> 'r option \<Rightarrow> ('r, 'o) client \<Rightarrow> logout_return \<times> ('r, 'o) client" where
  "maybeLogout au request c =
     (case maybeLogout_start c of
        (Returning r, c1) \<Rightarrow> (r, c1)
      | (Awaiting p s, c1) \<Rightarrow> maybeLogout_resume au request p s c1)"

text \<open>
  \<open>updateSettings\<close> (lines 96-105). The promise \<open>maybeLogout\<close> returns is dropped.
\<close>

definition updateSettings ::
  "('r, 'o) auth \<Rightarrow> client_settings \<Rightarrow> ('r, 'o) client \<Rightarrow> bool \<times> ('r, 'o) client" where
  "updateSettings au new c =
     (if differs new (settings c)
      then (True,
            snd (maybeLogout au None
                   (c\<lparr>settingsVersion := settingsVersion c + 1, settings := new\<rparr>)))
      else (False, c))"

text \<open>
  \<open>onSettingsChange\<close> (lines 107-118). A listener is identified by a number; the
  closure it returns is \<open>unsubscribe\<close>, with its flag \<open>isSubscribed\<close> passed in and out.
\<close>

definition onSettingsChange :: "nat \<Rightarrow> ('r, 'o) client \<Rightarrow> ('r, 'o) client" where
  "onSettingsChange listener c =
     c\<lparr>onSettingsChangeListeners := onSettingsChangeListeners c @ [listener]\<rparr>"

definition unsubscribe :: "nat \<Rightarrow> bool \<Rightarrow> ('r, 'o) client \<Rightarrow> bool \<times> ('r, 'o) client" where
  "unsubscribe listener isSubscribed c =
     (if isSubscribed
      then (False,
            c\<lparr>onSettingsChangeListeners := filter (\<lambda>l. l \<noteq> listener) (onSettingsChangeListeners c)\<rparr>)
      else (False, c))"

text \<open>The constructor (line 94) and the field initialisers (lines 90-92).\<close>

definition SynologyClient :: "client_settings \<Rightarrow> ('r, 'o) client" where
  "SynologyClient s =
     \<lparr>settings = s, settingsVersion = 0, loginPromise = None,
      onSettingsChangeListeners = [], requests = [], invoked = []\<rparr>"

section \<open>Call proxy\<close>

text \<open>
  While a call is suspended at an \<open>await\<close>, other tasks run. What they can do to the
  client is: call \<open>updateSettings\<close>, \<open>Auth.Login\<close> or \<open>Auth.Logout\<close>, or (as another
  proxied call that retries) discard the cached login promise. A schedule gives, for
  each \<open>await\<close> a call reaches, the actions of the other tasks during it; once the
  schedule is used up the call runs undisturbed.
\<close>

datatype 'r interference =
  OtherUpdateSettings client_settings
| OtherLogin "'r option"
| OtherLogout "'r option"
| OtherDiscardLogin

fun interfere :: "('r, 'o) auth \<Rightarrow> 'r interference \<Rightarrow> ('r, 'o) client \<Rightarrow> ('r, 'o) client" where
  "interfere au (OtherUpdateSettings s) c = snd (updateSettings au s c)"
| "interfere au (OtherLogin request) c = snd (maybeLogin au request c)"
| "interfere au (OtherLogout request) c = snd (maybeLogout au request c)"
| "interfere au OtherDiscardLogin c = c\<lparr>loginPromise := None\<rparr>"

fun suspend ::
  "('r, 'o) auth \<Rightarrow> 'r interference list list \<Rightarrow> ('r, 'o) client
     \<Rightarrow> ('r, 'o) client \<times> 'r interference list list" where
  "suspend au [] c = (c, [])"
| "suspend au (b # bs) c = (fold (interfere au) b c, bs)"

text \<open>
  \<open>maybeLogout\<close> with other tasks at work while it waits for the stashed promise:
  \<open>others\<close> is what they do to the client during that \<open>await\<close>.
\<close>

definition maybeLogout_during ::
  "('r, 'o) auth \<Rightarrow> 'r option \<Rightarrow> 'r interference list \<Rightarrow> ('r, 'o) client
     \<Rightarrow> logout_return \<times> ('r, 'o) client" where
  "maybeLogout_during au request others c =
     (case maybeLogout_start c of
        (Returning r, c1) \<Rightarrow> (r, c1)
      | (Awaiting p s, c1) \<Rightarrow> maybeLogout_resume au request p s (fold (interfere au) others c1))"

text \<open>
  The argument of \<open>maybeLogoutAndRetry\<close>, of type
  \<open>ConnectionFailure | RestApiFailureResponse\<close>: a connection failure, or a failure
  response with its \<open>error.code\<close>.
\<close>

datatype failure = Conn connection_failure | Api int

text \<open>
  The test of lines 230-232, without \<open>shouldRetryRoutineFailures\<close>:
  \<open>isConnectionFailure(result)\<close>, or the error code 106 or 105.
\<close>

fun routineFailure :: "failure \<Rightarrow> bool" where
  "routineFailure (Conn f) = True"
| "routineFailure (Api code) =
     (code = SESSION_TIMEOUT_ERROR_CODE \<or> code = NO_PERMISSIONS_ERROR_CODE)"

text \<open>
  Lines 236-240: a connection failure is returned as it is, a failure response with
  \<open>apiGroup\<close> added.
\<close>

fun surfaced :: "string \<Rightarrow> failure \<Rightarrow> 'u client_result" where
  "surfaced apiGroup (Conn f) = ConnFailure f"
| "surfaced apiGroup (Api code) = ApiFailure code apiGroup"

text \<open>
  \<open>try\<close>/\<open>catch\<close> of lines 243-267: the block either throws (\<open>Inl\<close>) or returns
  (\<open>Inr\<close>), and the handler turns what is thrown into a connection failure.
  \<open>returns\<close> is \<open>return await\<close> of a call that does not throw.
\<close>

fun catch :: "(thrown + 'u client_result) \<times> 'c \<Rightarrow> 'u client_result \<times> 'c" where
  "catch (Inl e, c) = (ConnFailure (ConnectionFailure_from e), c)"
| "catch (Inr r, c) = (r, c)"

fun returns :: "'u client_result \<times> 'c \<Rightarrow> (thrown + 'u client_result) \<times> 'c" where
  "returns (r, c) = (Inr r, c)"

text \<open>
  \<open>wrappedFunction\<close> and its closure \<open>maybeLogoutAndRetry\<close> (lines 219-268) for the
  endpoint function \<open>fn\<close> and the group \<open>apiGroup\<close> given to \<open>proxy\<close>. The endpoint
  function is given the log up to and including its own request and settles to any
  outcome. The call recurses when the settings version has changed, which takes an
  \<open>updateSettings\<close> of another task, and once more to retry; so it returns for every
  schedule.
\<close>

function
  wrappedFunction ::
    "('r, 'o) auth \<Rightarrow> (('r, 'o) request list \<Rightarrow> 'u net_outcome) \<Rightarrow> string
       \<Rightarrow> 'r interference list list \<Rightarrow> 'o \<Rightarrow> bool \<Rightarrow> ('r, 'o) client
       \<Rightarrow> 'u client_result \<times> ('r, 'o) client"
and
  maybeLogoutAndRetry ::
    "('r, 'o) auth \<Rightarrow> (('r, 'o) request list \<Rightarrow> 'u net_outcome) \<Rightarrow> string
       \<Rightarrow> 'r interference list list \<Rightarrow> 'o \<Rightarrow> bool \<Rightarrow> failure \<Rightarrow> ('r, 'o) client
       \<Rightarrow> 'u client_result \<times> ('r, 'o) client"
where
  "wrappedFunction au fn apiGroup sched options shouldRetryRoutineFailures c =
     catch
       (let versionAtInit = settingsVersion c;
            (ret, c1) = maybeLogin au None c;
            (c2, sched2) = suspend au sched c1;
            loginResult = awaited ret
        in if settingsVersion c2 \<noteq> versionAtInit
           then returns (wrappedFunction au fn apiGroup sched2 options True c2)
           else
             (case loginResult of
                ConnFailure f \<Rightarrow>
                  returns (maybeLogoutAndRetry au fn apiGroup sched2 options
                             shouldRetryRoutineFailures (Conn f) c2)
              | ApiFailure code g \<Rightarrow>
                  returns (maybeLogoutAndRetry au fn apiGroup sched2 options
                             shouldRetryRoutineFailures (Api code) c2)
              | Ok sid \<Rightarrow>
                  (let log = requests c2 @ [EndpointReq (baseUrl (settings c2)) sid options];
                       outcome = fn log;
                       (c3, sched3) = suspend au sched2 (c2\<lparr>requests := log\<rparr>)
                   in case outcome of
                        Rejects e \<Rightarrow> (Inl e, c3)
                      | Resolves response \<Rightarrow>
                          if settingsVersion c3 \<noteq> versionAtInit
                          then returns (wrappedFunction au fn apiGroup sched3 options True c3)
                          else
                            (case response of
                               Success d \<Rightarrow> (Inr (Ok d), c3)
                             | Failure code \<Rightarrow>
                                 returns (maybeLogoutAndRetry au fn apiGroup sched3 options
                                            shouldRetryRoutineFailures (Api code) c3)))))"
| "maybeLogoutAndRetry au fn apiGroup sched options shouldRetryRoutineFailures result c =
     (if shouldRetryRoutineFailures \<and> routineFailure result
      then wrappedFunction au fn apiGroup sched options False (c\<lparr>loginPromise := None\<rparr>)
      else (surfaced apiGroup result, c))"
  by pat_completeness auto
termination
proof -
  have ver: "settingsVersion c' = settingsVersion c"
    if "(r, c') = maybeLogin au req c"
    for r and c' c :: "('x, 'y) client" and au req
    using that [symmetric]
    by (auto simp: maybeLogin_def Let_def split: option.splits prod.splits)
  have le: "length s' \<le> length sched"
    if "(c', s') = suspend au sched c"
    for c' c :: "('x, 'y) client" and s' sched au
    using that by (cases sched) simp_all
  have lt: "length s' < length sched"
    if "(c', s') = suspend au sched c" "settingsVersion c' \<noteq> settingsVersion c"
    for c' c :: "('x, 'y) client" and s' sched au
    using that by (cases sched) simp_all
  show ?thesis
    apply (relation "measure (\<lambda>x. case x of
        Inl (au, fn, g, sched, opts, r, c) \<Rightarrow> 4 * length sched + (if r then 2 else 0) + 1
      | Inr (au, fn, g, sched, opts, r, f, c) \<Rightarrow> 4 * length sched + (if r then 2 else 0))")
          apply auto
    subgoal for au sched r c a b xb y aa ba xab ya
      using lt [of xab ya au sched y] ver [of xb y au None c] by simp
    subgoal for au sched r c a b xb y aa ba xab ya
      using lt [of xab ya au sched y] ver [of xb y au None c] by simp
    subgoal for au fn sched options r c a b xb y aa ba xab ya x1 ab bb xag yb x1a
      using le [of xab ya au sched y]
        lt [of xag yb au ya "xab\<lparr>requests := requests xab @ [EndpointReq (baseUrl (settings xab)) x1 options]\<rparr>"]
      by simp
    subgoal for au fn sched options r c a b xb y aa ba xab ya x1 ab bb xag yb x1a
      using le [of xab ya au sched y]
        lt [of xag yb au ya "xab\<lparr>requests := requests xab @ [EndpointReq (baseUrl (settings xab)) x1 options]\<rparr>"]
      by simp
    subgoal for au fn sched options c a b xb y aa ba xab ya x1 ab bb xag yb x2
      using le [of xab ya au sched y]
        le [of xag yb au ya "xab\<lparr>requests := requests xab @ [EndpointReq (baseUrl (settings xab)) x1 options]\<rparr>"]
      by simp
    subgoal for au sched c a b xb y aa ba xab ya
      using le [of xab ya au sched y] by simp
    subgoal for au sched c a b xb y aa ba xab ya
      using le [of xab ya au sched y] by simp
    done
qed

text \<open>
  One pass through the \<open>try\<close> block of \<open>wrappedFunction\<close>, up to where it returns,
  throws, calls itself because the version changed (\<open>Restart\<close>), or hands a failure to
  \<open>maybeLogoutAndRetry\<close> (\<open>Failing\<close>); with the client and the schedule at that point.
  It is the body of \<open>wrappedFunction\<close> with each recursive call replaced by a tag, and
  serves to state what the call does; \<open>wrappedFunction_attempt\<close> below proves that
  \<open>wrappedFunction\<close> is this pass followed by what the tag stands for.
\<close>

datatype 'u pass = Restart | Returned "'u client_result" | Thrown thrown | Failing failure

definition attempt ::
  "('r, 'o) auth \<Rightarrow> (('r, 'o) request list \<Rightarrow> 'u net_outcome)
     \<Rightarrow> 'r interference list list \<Rightarrow> 'o \<Rightarrow> ('r, 'o) client
     \<Rightarrow> 'u pass \<times> ('r, 'o) client \<times> 'r interference list list" where
  "attempt au fn sched options c =
     (let versionAtInit = settingsVersion c;
          (ret, c1) = maybeLogin au None c;
          (c2, sched2) = suspend au sched c1;
          loginResult = awaited ret
      in if settingsVersion c2 \<noteq> versionAtInit then (Restart, c2, sched2)
         else
           (case loginResult of
              ConnFailure f \<Rightarrow> (Failing (Conn f), c2, sched2)
            | ApiFailure code g \<Rightarrow> (Failing (Api code), c2, sched2)
            | Ok sid \<Rightarrow>
                (let log = requests c2 @ [EndpointReq (baseUrl (settings c2)) sid options];
                     outcome = fn log;
                     (c3, sched3) = suspend au sched2 (c2\<lparr>requests := log\<rparr>)
                 in case outcome of
                      Rejects e \<Rightarrow> (Thrown e, c3, sched3)
                    | Resolves response \<Rightarrow>
                        if settingsVersion c3 \<noteq> versionAtInit then (Restart, c3, sched3)
                        else
                          (case response of
                             Success d \<Rightarrow> (Returned (Ok d), c3, sched3)
                           | Failure code \<Rightarrow> (Failing (Api code), c3, sched3)))))"

text \<open>The number of invocations of the endpoint function in a log.\<close>

fun isEndpointReq :: "('r, 'o) request \<Rightarrow> bool" where
  "isEndpointReq (EndpointReq b sid options) = True"
| "isEndpointReq _ = False"

definition endpoint_calls :: "('r, 'o) request list \<Rightarrow> nat" where
  "endpoint_calls log = length (filter isEndpointReq log)"

text \<open>A sequence of calls of the login operation, with what each returns.\<close>

fun login_calls ::
  "('r, 'o) auth \<Rightarrow> 'r option list \<Rightarrow> ('r, 'o) client
     \<Rightarrow> login_return list \<times> ('r, 'o) client" where
  "login_calls au [] c = ([], c)"
| "login_calls au (request # rs) c =
     (let (x, c1) = maybeLogin au request c;
          (xs, c2) = login_calls au rs c1
      in (x # xs, c2))"

section \<open>Predicates used in the statements\<close>

text \<open>
  Every session the client holds or can hand out was created by a request issued at
  position \<open>n\<close> of the log or later.
\<close>

definition sessions_since :: "nat \<Rightarrow> ('r, 'o) client \<Rightarrow> bool" where
  "sessions_since n c \<longleftrightarrow>
     n \<le> length (requests c) \<and> (case loginPromise c of None \<Rightarrow> True | Some p \<Rightarrow> n \<le> origin p)"

text \<open>
  A connection failure whose tag fits the error it carries, as
  \<open>ConnectionFailure.from\<close> assigns them.
\<close>

fun well_tagged :: "connection_failure \<Rightarrow> bool" where
  "well_tagged Missing_config = True"
| "well_tagged (Probable_wrong_protocol e) = (e = BadResponseError 400)"
| "well_tagged (Probable_wrong_url_or_no_connection_or_cert_error e) = (e = NetworkError)"
| "well_tagged (Timeout e) = (e = TimeoutError)"
| "well_tagged (Unknown e) =
     (case e of
        BadResponseError status \<Rightarrow> status \<noteq> 400
      | OtherError m \<Rightarrow> True
      | _ \<Rightarrow> False)"

definition cache_well_tagged :: "('r, 'o) client \<Rightarrow> bool" where
  "cache_well_tagged c \<longleftrightarrow>
     (case loginPromise c of
        None \<Rightarrow> True
      | Some p \<Rightarrow> (case settled p of ConnFailure f \<Rightarrow> well_tagged f | _ \<Rightarrow> True))"

section \<open>Scenarios\<close>

text \<open>
  Concrete settings, servers, endpoint functions and clients, with no \<open>BaseRequest\<close>
  and no options (both \<open>unit\<close>) and a string as the payload of the endpoint.
\<close>

definition settings_h :: client_settings where
  "settings_h =
     \<lparr>baseUrl = Some ''http://h'', account = Some ''a'', passwd = Some ''p'', session = Some ''S''\<rparr>"

definition settings_g :: client_settings where
  "settings_g =
     \<lparr>baseUrl = Some ''http://g'', account = Some ''a'', passwd = Some ''p'', session = Some ''S''\<rparr>"

definition settings_no_passwd :: client_settings where
  "settings_no_passwd =
     \<lparr>baseUrl = Some ''http://h'', account = Some ''a'', passwd = Some '''', session = Some ''S''\<rparr>"

text \<open>A server that accepts every login and logout.\<close>

definition auth_ok :: "(unit, unit) auth" where
  "auth_ok =
     \<lparr>Login = (\<lambda>log. Resolves (Success ''sid'')),
      Logout = (\<lambda>log. Resolves (Success ())),
      API_NAME = ''SYNO.API.Auth''\<rparr>"

text \<open>A server that answers a login at version 2 with code 103 and accepts version 3.\<close>

definition auth_dsm7 :: "(unit, unit) auth" where
  "auth_dsm7 =
     \<lparr>Login = (\<lambda>log. case last log of
                        AuthLoginReq s r v \<Rightarrow>
                          if v = 2 then Resolves (Failure 103) else Resolves (Success ''sid'')
                      | _ \<Rightarrow> Rejects (OtherError ''not a login'')),
      Logout = (\<lambda>log. Resolves (Success ())),
      API_NAME = ''SYNO.API.Auth''\<rparr>"

text \<open>A server that refuses every login with code 400.\<close>

definition auth_refused :: "(unit, unit) auth" where
  "auth_refused =
     \<lparr>Login = (\<lambda>log. Resolves (Failure 400)),
      Logout = (\<lambda>log. Resolves (Success ())),
      API_NAME = ''SYNO.API.Auth''\<rparr>"

text \<open>A server whose login requests time out.\<close>

definition auth_timeout :: "(unit, unit) auth" where
  "auth_timeout =
     \<lparr>Login = (\<lambda>log. Rejects TimeoutError),
      Logout = (\<lambda>log. Resolves (Success ())),
      API_NAME = ''SYNO.API.Auth''\<rparr>"

text \<open>
  Endpoint functions: one that succeeds, one that fails with a code, one that throws a
  \<open>BadResponseError\<close> with status 400.
\<close>

definition fn_ok :: "(unit, unit) request list \<Rightarrow> string net_outcome" where
  "fn_ok log = Resolves (Success ''tasks'')"

definition fn_code :: "int \<Rightarrow> (unit, unit) request list \<Rightarrow> string net_outcome" where
  "fn_code code log = Resolves (Failure code)"

definition fn_bad_request :: "(unit, unit) request list \<Rightarrow> string net_outcome" where
  "fn_bad_request log = Rejects (BadResponseError 400)"

text \<open>A client with no listeners, given by its other fields.\<close>

definition client_with ::
  "client_settings \<Rightarrow> nat \<Rightarrow> login_promise option \<Rightarrow> (unit, unit) request list
     \<Rightarrow> (unit, unit) client" where
  "client_with s v p log =
     \<lparr>settings = s, settingsVersion = v, loginPromise = p,
      onSettingsChangeListeners = [], requests = log, invoked = []\<rparr>"

text \<open>The client after a successful login with \<open>settings_h\<close>.\<close>

definition logged_in_h :: "(unit, unit) client" where
  "logged_in_h =
     client_with settings_h 0 (Some (LoginPromise 0 (Ok ''sid''))) [AuthLoginReq settings_h None 2]"

text \<open>
  The client on which \<open>updateSettings settings_no_passwd\<close> calls \<open>maybeLogout\<close>, when
  the login with \<open>settings_h\<close> had been refused: the version and the settings are
  already the new ones, the refused login is still cached.
\<close>

definition refused_then_unconfigured :: "(unit, unit) client" where
  "refused_then_unconfigured =
     (snd (maybeLogin auth_refused None (SynologyClient settings_h)))
       \<lparr>settingsVersion := 1, settings := settings_no_passwd\<rparr>"

section \<open>The call proxy as a sequence of passes\<close>

declare wrappedFunction.simps [simp del]

lemma catch_returns: "catch (returns x) = x"
  by (cases x) simp

text \<open>
  \<open>wrappedFunction\<close> is one pass through its \<open>try\<close> block, followed by what the code
  does where the pass ends.
\<close>

lemma wrappedFunction_attempt:
  "wrappedFunction au fn apiGroup sched options shouldRetryRoutineFailures c =
     (case attempt au fn sched options c of
        (Restart, c', sched') \<Rightarrow> wrappedFunction au fn apiGroup sched' options True c'
      | (Returned r, c', sched') \<Rightarrow> (r, c')
      | (Thrown e, c', sched') \<Rightarrow> (ConnFailure (ConnectionFailure_from e), c')
      | (Failing result, c', sched') \<Rightarrow>
          maybeLogoutAndRetry au fn apiGroup sched' options shouldRetryRoutineFailures result c')"
  apply (subst wrappedFunction.simps)
  apply (simp add: attempt_def Let_def catch_returns del: maybeLogoutAndRetry.simps
      split: prod.splits client_result.splits net_outcome.splits rest_response.splits)
  done

section \<open>Evaluating the scenarios\<close>

lemmas scenario_defs =
  auth_ok_def auth_dsm7_def auth_refused_def auth_timeout_def fn_ok_def fn_code_def
  fn_bad_request_def
  settings_h_def settings_g_def settings_no_passwd_def SynologyClient_def client_with_def
  logged_in_h_def refused_then_unconfigured_def

lemmas client_defs =
  attempt_def maybeLogin_def maybeLogout_def maybeLogout_start_def maybeLogout_resume_def
  maybeLogout_during_def updateSettings_def getValidatedSettings_def
  login_chain_def settle_def differs_def SETTING_NAME_KEYS_def Let_def
  NO_SUCH_METHOD_ERROR_CODE_def NO_PERMISSIONS_ERROR_CODE_def SESSION_TIMEOUT_ERROR_CODE_def
  endpoint_calls_def

lemma logged_in_h_reached:
  "maybeLogin auth_ok None (SynologyClient settings_h)
     = (ReturnPromise (LoginPromise 0 (Ok ''sid'')), logged_in_h)"
  by (simp add: client_defs scenario_defs)

lemma logged_in_h_valid: "getValidatedSettings logged_in_h = Some settings_h"
  by (simp add: client_defs scenario_defs)

lemma logged_in_h_cached: "loginPromise logged_in_h = Some (LoginPromise 0 (Ok ''sid''))"
  by (simp add: scenario_defs)

section \<open>Session manager: login\<close>

lemma getValidatedSettings_loginPromise [simp]:
  "getValidatedSettings (c\<lparr>loginPromise := x\<rparr>) = getValidatedSettings c"
  by (simp add: getValidatedSettings_def)

lemma getValidatedSettings_requests [simp]:
  "getValidatedSettings (c\<lparr>requests := x\<rparr>) = getValidatedSettings c"
  by (simp add: getValidatedSettings_def)

lemma getValidatedSettings_Some: "getValidatedSettings c = Some s \<Longrightarrow> s = settings c"
  by (simp add: getValidatedSettings_def split: if_splits)

lemma maybeLogin_missing:
  "getValidatedSettings c = None \<Longrightarrow> maybeLogin au request c = (ReturnFailure Missing_config, c)"
  by (simp add: maybeLogin_def)

lemma maybeLogin_cached:
  "getValidatedSettings c = Some s \<Longrightarrow> loginPromise c = Some p \<Longrightarrow>
   maybeLogin au request c = (ReturnPromise p, c)"
  by (simp add: maybeLogin_def)

lemma maybeLogin_fresh:
  "getValidatedSettings c = Some s \<Longrightarrow> loginPromise c = None \<Longrightarrow>
   maybeLogin au request c =
     (ReturnPromise (LoginPromise (length (requests c)) (snd (login_chain au s request (requests c)))),
      c\<lparr>loginPromise := Some (LoginPromise (length (requests c)) (snd (login_chain au s request (requests c)))),
        requests := fst (login_chain au s request (requests c))\<rparr>)"
  by (simp add: maybeLogin_def Let_def split: prod.splits)

lemma maybeLogin_version: "settingsVersion (snd (maybeLogin au request c)) = settingsVersion c"
  by (simp add: maybeLogin_def Let_def split: option.splits prod.splits)

lemma login_chain_probe:
  "Login au (log @ [AuthLoginReq s request 2]) = Resolves (Failure NO_SUCH_METHOD_ERROR_CODE) \<Longrightarrow>
   login_chain au s request log =
     (log @ [AuthLoginReq s request 2, AuthLoginReq s request 3],
      settle au (Login au (log @ [AuthLoginReq s request 2, AuthLoginReq s request 3])))"
  by (simp add: login_chain_def Let_def)

lemma login_chain_no_probe:
  "Login au (log @ [AuthLoginReq s request 2]) \<noteq> Resolves (Failure NO_SUCH_METHOD_ERROR_CODE) \<Longrightarrow>
   login_chain au s request log =
     (log @ [AuthLoginReq s request 2], settle au (Login au (log @ [AuthLoginReq s request 2])))"
  by (auto simp: login_chain_def Let_def split: net_outcome.splits rest_response.splits)

lemma login_chain_extends:
  "\<exists>more. fst (login_chain au s request log) = log @ AuthLoginReq s request 2 # more"
  by (auto simp: login_chain_def Let_def split: net_outcome.splits rest_response.splits)

lemma settle_explicit:
  "settle au outcome =
     (case outcome of
        Resolves (Success d) \<Rightarrow> Ok d
      | Resolves (Failure code) \<Rightarrow> ApiFailure code (API_NAME au)
      | Rejects (BadResponseError status) \<Rightarrow>
          ConnFailure (if status = 400 then Probable_wrong_protocol (BadResponseError status)
                       else Unknown (BadResponseError status))
      | Rejects NetworkError \<Rightarrow>
          ConnFailure (Probable_wrong_url_or_no_connection_or_cert_error NetworkError)
      | Rejects TimeoutError \<Rightarrow> ConnFailure (Timeout TimeoutError)
      | Rejects (OtherError m) \<Rightarrow> ConnFailure (Unknown (OtherError m)))"
  by (simp add: settle_def split: net_outcome.splits rest_response.splits thrown.splits)

text \<open>
  C5. A login with valid settings and no cached promise first issues the request at
  protocol version 2. If, and only if, that request resolves to a failure with code
  103, one second request is issued at version 3, and the outcome of that request is
  the cached and returned login result. Any other outcome of the first request is the
  cached and returned result, and no second request is issued. The outcome of a request
  is cached as it is: a success with its session id, a failure response with its code
  (and the name of the \<open>Auth\<close> group), a thrown error as the connection failure of its
  class, which keeps the error.
\<close>

theorem maybeLogin_version_probe:
  assumes "getValidatedSettings c = Some s" and "loginPromise c = None"
  shows "let result = (\<lambda>outcome. case outcome of
                 Resolves (Success sid) \<Rightarrow> Ok sid
               | Resolves (Failure code) \<Rightarrow> ApiFailure code (API_NAME au)
               | Rejects (BadResponseError status) \<Rightarrow>
                   ConnFailure (if status = 400 then Probable_wrong_protocol (BadResponseError status)
                                else Unknown (BadResponseError status))
               | Rejects NetworkError \<Rightarrow>
                   ConnFailure (Probable_wrong_url_or_no_connection_or_cert_error NetworkError)
               | Rejects TimeoutError \<Rightarrow> ConnFailure (Timeout TimeoutError)
               | Rejects (OtherError m) \<Rightarrow> ConnFailure (Unknown (OtherError m)));
             v2 = AuthLoginReq s request 2;
             v3 = AuthLoginReq s request 3;
             first = Login au (requests c @ [v2]);
             second = Login au (requests c @ [v2, v3]);
             p2 = LoginPromise (length (requests c)) (result first);
             p3 = LoginPromise (length (requests c)) (result second)
         in maybeLogin au request c =
              (if first = Resolves (Failure 103)
               then (ReturnPromise p3, c\<lparr>loginPromise := Some p3, requests := requests c @ [v2, v3]\<rparr>)
               else (ReturnPromise p2, c\<lparr>loginPromise := Some p2, requests := requests c @ [v2]\<rparr>))"
proof (cases "Login au (requests c @ [AuthLoginReq s request 2]) = Resolves (Failure 103)")
  case True
  then have "login_chain au s request (requests c) =
      (requests c @ [AuthLoginReq s request 2, AuthLoginReq s request 3],
       settle au (Login au (requests c @ [AuthLoginReq s request 2, AuthLoginReq s request 3])))"
    by (simp add: login_chain_probe NO_SUCH_METHOD_ERROR_CODE_def)
  with True assms show ?thesis
    by (simp add: maybeLogin_fresh Let_def settle_explicit)
next
  case False
  then have "login_chain au s request (requests c) =
      (requests c @ [AuthLoginReq s request 2],
       settle au (Login au (requests c @ [AuthLoginReq s request 2])))"
    by (simp add: login_chain_no_probe NO_SUCH_METHOD_ERROR_CODE_def)
  with False assms show ?thesis
    by (simp add: maybeLogin_fresh Let_def settle_explicit)
qed

theorem maybeLogin_version_probe_witness:
  "getValidatedSettings (SynologyClient settings_h :: (unit, unit) client) = Some settings_h
   \<and> loginPromise (SynologyClient settings_h :: (unit, unit) client) = None
   \<and> maybeLogin auth_dsm7 None (SynologyClient settings_h)
       = (ReturnPromise (LoginPromise 0 (Ok ''sid'')),
          client_with settings_h 0 (Some (LoginPromise 0 (Ok ''sid'')))
            [AuthLoginReq settings_h None 2, AuthLoginReq settings_h None 3])
   \<and> maybeLogin auth_refused None (SynologyClient settings_h)
       = (ReturnPromise (LoginPromise 0 (ApiFailure 400 ''SYNO.API.Auth'')),
          client_with settings_h 0 (Some (LoginPromise 0 (ApiFailure 400 ''SYNO.API.Auth'')))
            [AuthLoginReq settings_h None 2])
   \<and> maybeLogin auth_timeout None (SynologyClient settings_h)
       = (ReturnPromise (LoginPromise 0 (ConnFailure (Timeout TimeoutError))),
          client_with settings_h 0 (Some (LoginPromise 0 (ConnFailure (Timeout TimeoutError))))
            [AuthLoginReq settings_h None 2])"
proof -
  have valid: "getValidatedSettings (SynologyClient settings_h :: (unit, unit) client) = Some settings_h"
    by (simp add: getValidatedSettings_def SETTING_NAME_KEYS_def scenario_defs)
  have none: "loginPromise (SynologyClient settings_h :: (unit, unit) client) = None"
    by (simp add: scenario_defs)
  have "maybeLogin auth_dsm7 None (SynologyClient settings_h)
       = (ReturnPromise (LoginPromise 0 (Ok ''sid'')),
          client_with settings_h 0 (Some (LoginPromise 0 (Ok ''sid'')))
            [AuthLoginReq settings_h None 2, AuthLoginReq settings_h None 3])"
    using maybeLogin_version_probe [OF valid none, of auth_dsm7 None]
    by (simp add: Let_def scenario_defs)
  moreover have "maybeLogin auth_refused None (SynologyClient settings_h)
       = (ReturnPromise (LoginPromise 0 (ApiFailure 400 ''SYNO.API.Auth'')),
          client_with settings_h 0 (Some (LoginPromise 0 (ApiFailure 400 ''SYNO.API.Auth'')))
            [AuthLoginReq settings_h None 2])"
    using maybeLogin_version_probe [OF valid none, of auth_refused None]
    by (simp add: Let_def scenario_defs)
  moreover have "maybeLogin auth_timeout None (SynologyClient settings_h)
       = (ReturnPromise (LoginPromise 0 (ConnFailure (Timeout TimeoutError))),
          client_with settings_h 0 (Some (LoginPromise 0 (ConnFailure (Timeout TimeoutError))))
            [AuthLoginReq settings_h None 2])"
    using maybeLogin_version_probe [OF valid none, of auth_timeout None]
    by (simp add: Let_def scenario_defs)
  ultimately show ?thesis
    using valid none by simp
qed

text \<open>
  C2. While a login promise is cached and the settings are valid, every call of the
  login operation, in a sequence of any length, returns that same promise and leaves
  the client, and so the log of requests, as it was. A call of the login operation adds
  a request to the log only when no promise is cached.
\<close>

theorem maybeLogin_shares_cached_promise:
  assumes "getValidatedSettings c = Some s" and "loginPromise c = Some p"
  shows "login_calls au rs c = (replicate (length rs) (ReturnPromise p), c)
       \<and> (\<forall>request c0. requests (snd (maybeLogin au request (c0 :: ('r, 'o) client))) \<noteq> requests c0
             \<longrightarrow> loginPromise c0 = None)"
proof
  show "login_calls au rs c = (replicate (length rs) (ReturnPromise p), c)"
    using assms by (induction rs) (simp_all add: maybeLogin_cached)
next
  show "\<forall>request c0. requests (snd (maybeLogin au request (c0 :: ('r, 'o) client))) \<noteq> requests c0
             \<longrightarrow> loginPromise c0 = None"
    by (auto simp: maybeLogin_def split: option.splits)
qed

theorem maybeLogin_shares_cached_promise_witness:
  "getValidatedSettings logged_in_h = Some settings_h
   \<and> loginPromise logged_in_h = Some (LoginPromise 0 (Ok ''sid''))
   \<and> login_calls auth_ok [None, None, None] logged_in_h
       = ([ReturnPromise (LoginPromise 0 (Ok ''sid'')), ReturnPromise (LoginPromise 0 (Ok ''sid'')),
           ReturnPromise (LoginPromise 0 (Ok ''sid''))], logged_in_h)"
  using logged_in_h_valid logged_in_h_cached
    maybeLogin_shares_cached_promise [OF logged_in_h_valid logged_in_h_cached, of auth_ok "[None, None, None]"]
  by (simp add: numeral_3_eq_3)

section \<open>Session manager: logout\<close>

lemma maybeLogout_cleared: "loginPromise (snd (maybeLogout au request c)) = None"
  by (simp add: maybeLogout_def maybeLogout_start_def maybeLogout_resume_def Let_def split: option.splits client_result.splits)

lemma maybeLogout_frame:
  "snd (maybeLogout au request c) =
     c\<lparr>loginPromise := None, requests := requests (snd (maybeLogout au request c))\<rparr>"
  by (simp add: maybeLogout_def maybeLogout_start_def maybeLogout_resume_def Let_def split: option.splits client_result.splits)

lemma maybeLogout_not_logged_in:
  "loginPromise c = None \<Longrightarrow> maybeLogout au request c = (Not_logged_in, c)"
  by (simp add: maybeLogout_def maybeLogout_start_def maybeLogout_resume_def Let_def)

lemma maybeLogout_missing_config:
  "loginPromise c = Some p \<Longrightarrow> getValidatedSettings c = None \<Longrightarrow>
   maybeLogout au request c = (LogoutResult (ConnFailure Missing_config), c\<lparr>loginPromise := None\<rparr>)"
  by (simp add: maybeLogout_def maybeLogout_start_def maybeLogout_resume_def Let_def)

lemma maybeLogout_failed_conn:
  "loginPromise c = Some p \<Longrightarrow> getValidatedSettings c = Some s \<Longrightarrow> settled p = ConnFailure f \<Longrightarrow>
   maybeLogout au request c = (LogoutResult (ConnFailure f), c\<lparr>loginPromise := None\<rparr>)"
  by (simp add: maybeLogout_def maybeLogout_start_def maybeLogout_resume_def Let_def)

lemma maybeLogout_failed_api:
  "loginPromise c = Some p \<Longrightarrow> getValidatedSettings c = Some s \<Longrightarrow> settled p = ApiFailure code g \<Longrightarrow>
   maybeLogout au request c = (LogoutResult (ApiFailure code g), c\<lparr>loginPromise := None\<rparr>)"
  by (simp add: maybeLogout_def maybeLogout_start_def maybeLogout_resume_def Let_def)

lemma maybeLogout_logged_in:
  "loginPromise c = Some p \<Longrightarrow> getValidatedSettings c = Some s \<Longrightarrow> settled p = Ok sid \<Longrightarrow>
   maybeLogout au request c =
     (LogoutResult (settle au (Logout au (requests c @ [AuthLogoutReq (baseUrl s) request sid (session s)]))),
      c\<lparr>loginPromise := None,
        requests := requests c @ [AuthLogoutReq (baseUrl s) request sid (session s)]\<rparr>)"
  by (simp add: maybeLogout_def maybeLogout_start_def maybeLogout_resume_def Let_def)

lemma maybeLogout_request_only_if:
  "requests (snd (maybeLogout au request c)) \<noteq> requests c \<Longrightarrow>
   \<exists>p sid. loginPromise c = Some p \<and> settled p = Ok sid \<and> getValidatedSettings c \<noteq> None"
  by (auto simp: maybeLogout_def maybeLogout_start_def maybeLogout_resume_def Let_def split: option.splits client_result.splits)

lemma maybeLogout_settings: "settings (snd (maybeLogout au request c)) = settings c"
  by (subst maybeLogout_frame) simp

lemma maybeLogout_version: "settingsVersion (snd (maybeLogout au request c)) = settingsVersion c"
  by (subst maybeLogout_frame) simp

lemma maybeLogout_requests_grow:
  "length (requests c) \<le> length (requests (snd (maybeLogout au request c)))"
  by (simp add: maybeLogout_def maybeLogout_start_def maybeLogout_resume_def Let_def split: option.splits client_result.splits)

text \<open>
  C6, as the code has it. The claim leaves out the test of line 186: when a login
  promise is cached but the current settings are not valid, \<open>maybeLogout\<close> returns the
  \<open>missing-config\<close> failure, whatever the cached login resolved to, and issues no
  request. Here a refused login (code 400) is cached and the settings have lost their
  password: the result is \<open>missing-config\<close>, not the refused login.
\<close>

theorem maybeLogout_returns_cached_failure_counterexample:
  "loginPromise refused_then_unconfigured = Some (LoginPromise 0 (ApiFailure 400 ''SYNO.API.Auth''))
   \<and> fst (maybeLogout auth_refused None refused_then_unconfigured)
       = LogoutResult (ConnFailure Missing_config)
   \<and> fst (maybeLogout auth_refused None refused_then_unconfigured)
       \<noteq> LogoutResult (ApiFailure 400 ''SYNO.API.Auth'')"
  by (simp add: client_defs scenario_defs)

lemma maybeLogout_start_cleared: "snd (maybeLogout_start c) = c\<lparr>loginPromise := None\<rparr>"
  by (simp add: maybeLogout_start_def Let_def split: option.splits)

lemma maybeLogout_start_none:
  "loginPromise c = None \<Longrightarrow> maybeLogout_start c = (Returning Not_logged_in, c)"
  by (simp add: maybeLogout_start_def Let_def)

lemma maybeLogout_start_invalid:
  "loginPromise c = Some p \<Longrightarrow> getValidatedSettings c = None \<Longrightarrow>
   maybeLogout_start c
     = (Returning (LogoutResult (ConnFailure Missing_config)), c\<lparr>loginPromise := None\<rparr>)"
  by (simp add: maybeLogout_start_def Let_def)

lemma maybeLogout_start_awaiting:
  "loginPromise c = Some p \<Longrightarrow> getValidatedSettings c = Some s \<Longrightarrow>
   maybeLogout_start c = (Awaiting p s, c\<lparr>loginPromise := None\<rparr>)"
  by (simp add: maybeLogout_start_def Let_def)

lemma maybeLogout_resume_loginPromise:
  "loginPromise (snd (maybeLogout_resume au request p s c)) = loginPromise c"
  by (simp add: maybeLogout_resume_def Let_def split: client_result.splits)

lemma maybeLogout_during_alone: "maybeLogout_during au request [] c = maybeLogout au request c"
  by (simp add: maybeLogout_during_def maybeLogout_def split: prod.splits logout_start.splits)

text \<open>
  C6, amended. For every call of the logout operation, and whatever other tasks do to
  the client while the call waits for the stashed promise (\<open>others\<close>): the part of the
  call that runs before any \<open>await\<close> stashes the cached login promise and clears the
  cache, and changes nothing else, so the other tasks find no cached promise. With no
  promise cached the call returns the sentinel and the client is as it was; with a
  promise cached and settings that are not valid it returns \<open>missing-config\<close>; in both
  cases it does not wait and issues no request. With valid settings and a cached login
  that resolved to a connection failure or to a failure response it returns that result
  and the client is as the other tasks left it: no request of its own. With valid
  settings and a cached login that resolved successfully it issues one \<open>Auth.Logout\<close>
  request, with the session id of the stashed login and the settings read at the start,
  and returns the outcome of that request (a success, a failure response with its code,
  a thrown error as the connection failure of its class). Whatever that request
  settles to, the promise cached afterwards is the one the other tasks left; a login of
  another task during the wait issues a fresh request, and its promise is still cached
  when the logout has returned. Without other tasks a request is issued only when the
  cached login had resolved successfully.
\<close>

theorem maybeLogout_during_cases:
  "let result = (\<lambda>outcome. case outcome of
          Resolves (Success (d :: unit)) \<Rightarrow> Ok d
        | Resolves (Failure code) \<Rightarrow> ApiFailure code (API_NAME au)
        | Rejects (BadResponseError status) \<Rightarrow>
            ConnFailure (if status = 400 then Probable_wrong_protocol (BadResponseError status)
                         else Unknown (BadResponseError status))
        | Rejects NetworkError \<Rightarrow>
            ConnFailure (Probable_wrong_url_or_no_connection_or_cert_error NetworkError)
        | Rejects TimeoutError \<Rightarrow> ConnFailure (Timeout TimeoutError)
        | Rejects (OtherError m) \<Rightarrow> ConnFailure (Unknown (OtherError m)));
       c1 = c\<lparr>loginPromise := None\<rparr>;
       c2 = fold (interfere au) others c1
   in snd (maybeLogout_start c) = c1
    \<and> (\<forall>p s. loginPromise c = Some p \<and> getValidatedSettings c = Some s \<longrightarrow>
          maybeLogout_start c = (Awaiting p s, c1))
    \<and> (loginPromise c = None \<longrightarrow>
          maybeLogout_during au request others c = (Not_logged_in, c))
    \<and> (\<forall>p. loginPromise c = Some p \<and> getValidatedSettings c = None \<longrightarrow>
          maybeLogout_during au request others c = (LogoutResult (ConnFailure Missing_config), c1))
    \<and> (\<forall>p s f. loginPromise c = Some p \<and> getValidatedSettings c = Some s
          \<and> settled p = ConnFailure f \<longrightarrow>
          maybeLogout_during au request others c = (LogoutResult (ConnFailure f), c2))
    \<and> (\<forall>p s code g. loginPromise c = Some p \<and> getValidatedSettings c = Some s
          \<and> settled p = ApiFailure code g \<longrightarrow>
          maybeLogout_during au request others c = (LogoutResult (ApiFailure code g), c2))
    \<and> (\<forall>p s sid. loginPromise c = Some p \<and> getValidatedSettings c = Some s
          \<and> settled p = Ok sid \<longrightarrow>
          maybeLogout_during au request others c =
            (LogoutResult
               (result (Logout au (requests c2 @ [AuthLogoutReq (baseUrl s) request sid (session s)]))),
             c2\<lparr>requests := requests c2 @ [AuthLogoutReq (baseUrl s) request sid (session s)]\<rparr>))
    \<and> (\<forall>p s. loginPromise c = Some p \<and> getValidatedSettings c = Some s \<longrightarrow>
          loginPromise (snd (maybeLogout_during au request others c)) = loginPromise c2)
    \<and> (\<forall>p s r. loginPromise c = Some p \<and> getValidatedSettings c = Some s \<longrightarrow>
          (\<exists>q. loginPromise (snd (maybeLogout_during au request [OtherLogin r] c)) = Some q
               \<and> origin q = length (requests c)))
    \<and> (requests (snd (maybeLogout_during au request [] c)) \<noteq> requests c \<longrightarrow>
          (\<exists>p sid. loginPromise c = Some p \<and> settled p = Ok sid \<and> getValidatedSettings c \<noteq> None))"
proof -
  let ?c1 = "c\<lparr>loginPromise := None\<rparr>"
  let ?c2 = "fold (interfere au) others ?c1"
  have start: "snd (maybeLogout_start c) = ?c1"
    by (rule maybeLogout_start_cleared)
  have await: "maybeLogout_start c = (Awaiting p s, ?c1)"
    if "loginPromise c = Some p \<and> getValidatedSettings c = Some s" for p s
    using that by (simp add: maybeLogout_start_awaiting)
  have none: "maybeLogout_during au request others c = (Not_logged_in, c)"
    if "loginPromise c = None"
    using that by (simp add: maybeLogout_during_def maybeLogout_start_none)
  have invalid: "maybeLogout_during au request others c
      = (LogoutResult (ConnFailure Missing_config), ?c1)"
    if "loginPromise c = Some p \<and> getValidatedSettings c = None" for p
    using that by (simp add: maybeLogout_during_def maybeLogout_start_invalid)
  have conn: "maybeLogout_during au request others c = (LogoutResult (ConnFailure f), ?c2)"
    if "loginPromise c = Some p \<and> getValidatedSettings c = Some s \<and> settled p = ConnFailure f"
    for p s f
    using that by (simp add: maybeLogout_during_def maybeLogout_start_awaiting maybeLogout_resume_def)
  have api: "maybeLogout_during au request others c = (LogoutResult (ApiFailure code g), ?c2)"
    if "loginPromise c = Some p \<and> getValidatedSettings c = Some s \<and> settled p = ApiFailure code g"
    for p s code g
    using that by (simp add: maybeLogout_during_def maybeLogout_start_awaiting maybeLogout_resume_def)
  have ok: "maybeLogout_during au request others c =
      (LogoutResult
         (settle au (Logout au (requests ?c2 @ [AuthLogoutReq (baseUrl s) request sid (session s)]))),
       ?c2\<lparr>requests := requests ?c2 @ [AuthLogoutReq (baseUrl s) request sid (session s)]\<rparr>)"
    if "loginPromise c = Some p \<and> getValidatedSettings c = Some s \<and> settled p = Ok sid"
    for p s sid
    using that
    by (simp add: maybeLogout_during_def maybeLogout_start_awaiting maybeLogout_resume_def Let_def)
  have kept: "loginPromise (snd (maybeLogout_during au request others c)) = loginPromise ?c2"
    if "loginPromise c = Some p \<and> getValidatedSettings c = Some s" for p s
    using that
    by (simp add: maybeLogout_during_def maybeLogout_start_awaiting maybeLogout_resume_loginPromise)
  have login: "\<exists>q. loginPromise (snd (maybeLogout_during au request [OtherLogin r] c)) = Some q
      \<and> origin q = length (requests c)"
    if "loginPromise c = Some p \<and> getValidatedSettings c = Some s" for p s r
  proof -
    have valid: "getValidatedSettings ?c1 = Some s" using that by simp
    have "loginPromise (snd (maybeLogout_during au request [OtherLogin r] c))
        = loginPromise (snd (maybeLogin au r ?c1))"
      using that
      by (simp add: maybeLogout_during_def maybeLogout_start_awaiting maybeLogout_resume_loginPromise)
    also have "\<dots> = Some (LoginPromise (length (requests c))
        (snd (login_chain au s r (requests c))))"
      by (simp add: maybeLogin_fresh [OF valid])
    finally show ?thesis by simp
  qed
  have only: "\<exists>p sid. loginPromise c = Some p \<and> settled p = Ok sid \<and> getValidatedSettings c \<noteq> None"
    if "requests (snd (maybeLogout_during au request [] c)) \<noteq> requests c"
    using that maybeLogout_request_only_if [of au request c]
    by (simp add: maybeLogout_during_alone)
  show ?thesis
    unfolding Let_def settle_explicit [symmetric]
    using start await none invalid conn api ok kept login only by blast
qed

theorem maybeLogout_during_cases_witness:
  "loginPromise logged_in_h = Some (LoginPromise 0 (Ok ''sid''))
   \<and> getValidatedSettings logged_in_h = Some settings_h
   \<and> settled (LoginPromise 0 (Ok ''sid'')) = Ok ''sid''
   \<and> maybeLogout_during auth_ok None [OtherLogin None] logged_in_h
       = (LogoutResult (Ok ()),
          client_with settings_h 0 (Some (LoginPromise 1 (Ok ''sid'')))
            [AuthLoginReq settings_h None 2, AuthLoginReq settings_h None 2,
             AuthLogoutReq (Some ''http://h'') None ''sid'' (Some ''S'')])
   \<and> loginPromise (SynologyClient settings_h :: (unit, unit) client) = None
   \<and> maybeLogout_during auth_ok None [OtherLogin None] (SynologyClient settings_h)
       = (Not_logged_in, SynologyClient settings_h)
   \<and> loginPromise refused_then_unconfigured = Some (LoginPromise 0 (ApiFailure 400 ''SYNO.API.Auth''))
   \<and> getValidatedSettings refused_then_unconfigured = None
   \<and> maybeLogout_during auth_refused None [] refused_then_unconfigured
       = (LogoutResult (ConnFailure Missing_config),
          client_with settings_no_passwd 1 None [AuthLoginReq settings_h None 2])"
proof -
  have a: "loginPromise logged_in_h = Some (LoginPromise 0 (Ok ''sid''))
      \<and> getValidatedSettings logged_in_h = Some settings_h
      \<and> settled (LoginPromise 0 (Ok ''sid'')) = Ok ''sid''"
    by (simp add: logged_in_h_valid logged_in_h_cached)
  have b: "loginPromise (SynologyClient settings_h :: (unit, unit) client) = None"
    by (simp add: scenario_defs)
  have c: "loginPromise refused_then_unconfigured = Some (LoginPromise 0 (ApiFailure 400 ''SYNO.API.Auth''))
      \<and> getValidatedSettings refused_then_unconfigured = None"
    by (simp add: client_defs scenario_defs)
  note cases_ok = maybeLogout_during_cases [where c = logged_in_h and au = auth_ok
      and others = "[OtherLogin None]" and request = None,
      unfolded Let_def]
  have "maybeLogout_during auth_ok None [OtherLogin None] logged_in_h
      = (LogoutResult (Ok ()),
          client_with settings_h 0 (Some (LoginPromise 1 (Ok ''sid'')))
            [AuthLoginReq settings_h None 2, AuthLoginReq settings_h None 2,
             AuthLogoutReq (Some ''http://h'') None ''sid'' (Some ''S'')])"
  proof -
    have "maybeLogout_during auth_ok None [OtherLogin None] logged_in_h =
        (LogoutResult
           (case Logout auth_ok
                   (requests (fold (interfere auth_ok) [OtherLogin None] (logged_in_h\<lparr>loginPromise := None\<rparr>))
                      @ [AuthLogoutReq (baseUrl settings_h) None ''sid'' (session settings_h)]) of
              Resolves (Success d) \<Rightarrow> Ok d
            | Resolves (Failure code) \<Rightarrow> ApiFailure code (API_NAME auth_ok)
            | Rejects (BadResponseError status) \<Rightarrow>
                ConnFailure (if status = 400 then Probable_wrong_protocol (BadResponseError status)
                             else Unknown (BadResponseError status))
            | Rejects NetworkError \<Rightarrow>
                ConnFailure (Probable_wrong_url_or_no_connection_or_cert_error NetworkError)
            | Rejects TimeoutError \<Rightarrow> ConnFailure (Timeout TimeoutError)
            | Rejects (OtherError m) \<Rightarrow> ConnFailure (Unknown (OtherError m))),
         (fold (interfere auth_ok) [OtherLogin None] (logged_in_h\<lparr>loginPromise := None\<rparr>))
           \<lparr>requests := requests (fold (interfere auth_ok) [OtherLogin None] (logged_in_h\<lparr>loginPromise := None\<rparr>))
              @ [AuthLogoutReq (baseUrl settings_h) None ''sid'' (session settings_h)]\<rparr>)"
      using a cases_ok by blast
    then show ?thesis by (simp add: client_defs scenario_defs)
  qed
  moreover have "maybeLogout_during auth_ok None [OtherLogin None] (SynologyClient settings_h)
      = (Not_logged_in, SynologyClient settings_h)"
    using b maybeLogout_during_cases [where c = "SynologyClient settings_h" and au = auth_ok
      and others = "[OtherLogin None]" and request = None,
      unfolded Let_def]
    by blast
  moreover have "maybeLogout_during auth_refused None [] refused_then_unconfigured
      = (LogoutResult (ConnFailure Missing_config), refused_then_unconfigured\<lparr>loginPromise := None\<rparr>)"
    using c maybeLogout_during_cases [where c = refused_then_unconfigured and au = auth_refused
      and others = "[]" and request = None,
      unfolded Let_def]
    by blast
  ultimately show ?thesis
    using a b c by (simp add: client_defs scenario_defs)
qed

section \<open>Settings holder: updates\<close>

text \<open>
  C8. When none of the four recognised fields of the new value differs from the stored
  one, \<open>updateSettings\<close> returns false and the client is as it was: the version keeps
  its value, the stored settings are not replaced, the cached login promise is not
  invalidated, and no logout is started (the log of requests is the same).
\<close>

theorem updateSettings_same_noop:
  "\<not> differs new (settings c) \<Longrightarrow> updateSettings au new c = (False, c)"
  by (simp add: updateSettings_def)

theorem updateSettings_same_noop_witness:
  "\<not> differs settings_h (settings logged_in_h)
   \<and> updateSettings auth_ok settings_h logged_in_h = (False, logged_in_h)"
proof -
  have same: "\<not> differs settings_h (settings logged_in_h)"
    by (simp add: client_defs scenario_defs)
  show ?thesis
    using same updateSettings_same_noop [OF same, of auth_ok] by simp
qed

lemma updateSettings_effective:
  "differs new (settings c) \<Longrightarrow>
   updateSettings au new c =
     (True, snd (maybeLogout au None (c\<lparr>settingsVersion := settingsVersion c + 1, settings := new\<rparr>)))"
  by (simp add: updateSettings_def)

lemma updateSettings_requests_grow:
  "length (requests c) \<le> length (requests (snd (updateSettings au new c)))"
  using maybeLogout_requests_grow [of "c\<lparr>settingsVersion := settingsVersion c + 1, settings := new\<rparr>" au None]
  by (simp add: updateSettings_def)

subsection \<open>Sessions created before a point of the log are not handed out after it\<close>

lemma sessions_since_maybeLogin:
  assumes "sessions_since n c"
  shows "sessions_since n (snd (maybeLogin au request c))"
proof (cases "getValidatedSettings c")
  case None
  with assms show ?thesis by (simp add: maybeLogin_missing)
next
  case (Some s)
  show ?thesis
  proof (cases "loginPromise c")
    case None
    obtain more where "fst (login_chain au s request (requests c))
        = requests c @ AuthLoginReq s request 2 # more"
      using login_chain_extends by blast
    with Some None assms show ?thesis by (simp add: maybeLogin_fresh sessions_since_def)
  next
    case (Some p)
    with \<open>getValidatedSettings c = Some s\<close> assms show ?thesis by (simp add: maybeLogin_cached)
  qed
qed

lemma sessions_since_maybeLogout:
  assumes "sessions_since n c"
  shows "sessions_since n (snd (maybeLogout au request c))"
  using assms maybeLogout_requests_grow [of c au request] maybeLogout_cleared [of au request c]
  by (simp add: sessions_since_def)

lemma sessions_since_updateSettings:
  assumes "sessions_since n c"
  shows "sessions_since n (snd (updateSettings au new c))"
proof (cases "differs new (settings c)")
  case True
  have "sessions_since n (c\<lparr>settingsVersion := settingsVersion c + 1, settings := new\<rparr>)"
    using assms by (simp add: sessions_since_def)
  then show ?thesis using True by (simp add: updateSettings_effective sessions_since_maybeLogout)
next
  case False
  with assms show ?thesis by (simp add: updateSettings_def)
qed

lemma sessions_since_interfere:
  "sessions_since n c \<Longrightarrow> sessions_since n (interfere au e c)"
  by (cases e)
    (simp_all add: sessions_since_updateSettings sessions_since_maybeLogin sessions_since_maybeLogout,
     simp add: sessions_since_def)

lemma sessions_since_fold:
  "sessions_since n c \<Longrightarrow> sessions_since n (fold (interfere au) ops c)"
  by (induction ops arbitrary: c) (simp_all add: sessions_since_interfere)

text \<open>
  C3. When at least one of the four recognised fields of the new value differs from the
  stored one, \<open>updateSettings\<close> returns true, the version counter is one more, the
  stored settings are the new value, and no login promise is cached. So the next login
  does not return a session of the previous version: the promise it returns was created
  by a request issued after the update, a login at version 2 that carries the new
  settings. And whatever the callers of the client do afterwards (update the settings,
  log in, log out, discard the login), a promise cached then was created by a request
  issued after the update.
\<close>

theorem updateSettings_changed:
  assumes "differs new (settings c)"
  shows "fst (updateSettings au new c) = True
       \<and> settingsVersion (snd (updateSettings au new c)) = settingsVersion c + 1
       \<and> settings (snd (updateSettings au new c)) = new
       \<and> loginPromise (snd (updateSettings au new c)) = None
       \<and> (\<forall>request p c'.
            maybeLogin au request (snd (updateSettings au new c)) = (ReturnPromise p, c') \<longrightarrow>
              origin p = length (requests (snd (updateSettings au new c)))
              \<and> (\<exists>more. requests c' =
                    requests (snd (updateSettings au new c)) @ AuthLoginReq new request 2 # more))
       \<and> (\<forall>ops p.
            loginPromise (fold (interfere au) ops (snd (updateSettings au new c))) = Some p \<longrightarrow>
              length (requests c) \<le> origin p)"
proof (intro conjI allI impI)
  let ?c' = "snd (updateSettings au new c)"
  show "fst (updateSettings au new c) = True"
    using assms by (simp add: updateSettings_effective)
  show "settingsVersion ?c' = settingsVersion c + 1"
    using assms by (simp add: updateSettings_effective maybeLogout_version)
  show new: "settings ?c' = new"
    using assms by (simp add: updateSettings_effective maybeLogout_settings)
  show none: "loginPromise ?c' = None"
    using assms by (simp add: updateSettings_effective maybeLogout_cleared)
  have since: "sessions_since (length (requests c)) ?c'"
    using none updateSettings_requests_grow [of c au new] by (simp add: sessions_since_def)
  {
    fix request p c'
    assume login: "maybeLogin au request ?c' = (ReturnPromise p, c')"
    then obtain s where valid: "getValidatedSettings ?c' = Some s"
      by (cases "getValidatedSettings ?c'") (simp_all add: maybeLogin_missing)
    then have s: "s = new" using new getValidatedSettings_Some by metis
    from login show "origin p = length (requests ?c')"
      by (auto simp: maybeLogin_fresh [OF valid none])
    obtain more where "fst (login_chain au s request (requests ?c'))
        = requests ?c' @ AuthLoginReq s request 2 # more"
      using login_chain_extends by blast
    with login s show "\<exists>more. requests c' = requests ?c' @ AuthLoginReq new request 2 # more"
      by (auto simp: maybeLogin_fresh [OF valid none])
  }
  {
    fix ops p
    assume "loginPromise (fold (interfere au) ops ?c') = Some p"
    with sessions_since_fold [OF since, of au ops]
    show "length (requests c) \<le> origin p" by (simp add: sessions_since_def)
  }
qed

theorem updateSettings_changed_witness:
  "differs settings_g (settings logged_in_h)
   \<and> updateSettings auth_ok settings_g logged_in_h
       = (True,
          client_with settings_g 1 None
            [AuthLoginReq settings_h None 2, AuthLogoutReq (Some ''http://g'') None ''sid'' (Some ''S'')])
   \<and> settingsVersion (snd (updateSettings auth_ok settings_g logged_in_h))
       = settingsVersion logged_in_h + 1
   \<and> maybeLogin auth_ok None (snd (updateSettings auth_ok settings_g logged_in_h))
       = (ReturnPromise (LoginPromise 2 (Ok ''sid'')),
          client_with settings_g 1 (Some (LoginPromise 2 (Ok ''sid'')))
            [AuthLoginReq settings_h None 2, AuthLogoutReq (Some ''http://g'') None ''sid'' (Some ''S''),
             AuthLoginReq settings_g None 2])"
proof -
  have changed: "differs settings_g (settings logged_in_h)"
    by (simp add: client_defs scenario_defs)
  have run: "updateSettings auth_ok settings_g logged_in_h
       = (True,
          client_with settings_g 1 None
            [AuthLoginReq settings_h None 2, AuthLogoutReq (Some ''http://g'') None ''sid'' (Some ''S'')])"
    by (simp add: client_defs scenario_defs)
  have "settingsVersion (snd (updateSettings auth_ok settings_g logged_in_h))
       = settingsVersion logged_in_h + 1"
    using updateSettings_changed [OF changed, of auth_ok] by blast
  then show ?thesis
    using changed run by (simp add: client_defs scenario_defs)
qed

text \<open>
  C4. The code never invokes a listener: \<open>onSettingsChangeListeners\<close> is written by
  \<open>onSettingsChange\<close> and by the closure it returns, and read nowhere else. With the
  listener 7 registered and not unsubscribed, an update that changes the base URL
  returns true, the listener is still registered, and nothing was invoked.
\<close>

theorem updateSettings_invokes_no_listener:
  "fst (updateSettings auth_ok settings_g (onSettingsChange 7 (SynologyClient settings_h))) = True
   \<and> onSettingsChangeListeners
         (snd (updateSettings auth_ok settings_g (onSettingsChange 7 (SynologyClient settings_h)))) = [7]
   \<and> invoked
         (snd (updateSettings auth_ok settings_g (onSettingsChange 7 (SynologyClient settings_h)))) = []"
  by (simp add: client_defs scenario_defs onSettingsChange_def)

section \<open>Call proxy: what a pass does to the schedule, the version and the log\<close>

lemma suspend_sched_le: "length (snd (suspend au sched c)) \<le> length sched"
  by (cases sched) simp_all

lemma suspend_changed_lt:
  "settingsVersion (fst (suspend au sched c)) \<noteq> settingsVersion c \<Longrightarrow>
   length (snd (suspend au sched c)) < length sched"
  by (cases sched) simp_all

lemma endpoint_calls_append [simp]:
  "endpoint_calls (xs @ ys) = endpoint_calls xs + endpoint_calls ys"
  by (simp add: endpoint_calls_def)

lemma endpoint_calls_login_chain:
  "endpoint_calls (fst (login_chain au s request log)) = endpoint_calls log"
  by (auto simp: login_chain_def Let_def endpoint_calls_def
      split: net_outcome.splits rest_response.splits)

lemma endpoint_calls_maybeLogin:
  "endpoint_calls (requests (snd (maybeLogin au request c))) = endpoint_calls (requests c)"
proof (cases "getValidatedSettings c")
  case None
  then show ?thesis by (simp add: maybeLogin_missing)
next
  case (Some s)
  then show ?thesis
    by (cases "loginPromise c")
      (simp_all add: maybeLogin_fresh maybeLogin_cached endpoint_calls_login_chain)
qed

lemma endpoint_calls_maybeLogout:
  "endpoint_calls (requests (snd (maybeLogout au request c))) = endpoint_calls (requests c)"
  by (simp add: maybeLogout_def maybeLogout_start_def maybeLogout_resume_def Let_def endpoint_calls_def split: option.splits client_result.splits)

lemma endpoint_calls_updateSettings:
  "endpoint_calls (requests (snd (updateSettings au new c))) = endpoint_calls (requests c)"
  by (simp add: updateSettings_def endpoint_calls_maybeLogout)

lemma endpoint_calls_interfere:
  "endpoint_calls (requests (interfere au e c)) = endpoint_calls (requests c)"
  by (cases e)
    (simp_all add: endpoint_calls_updateSettings endpoint_calls_maybeLogin endpoint_calls_maybeLogout)

lemma endpoint_calls_fold:
  "endpoint_calls (requests (fold (interfere au) ops c)) = endpoint_calls (requests c)"
  by (induction ops arbitrary: c) (simp_all add: endpoint_calls_interfere)

lemma endpoint_calls_suspend:
  "endpoint_calls (requests (fst (suspend au sched c))) = endpoint_calls (requests c)"
  by (cases sched) (simp_all add: endpoint_calls_fold)

lemma version_updateSettings_mono:
  "settingsVersion c \<le> settingsVersion (snd (updateSettings au new c))"
  by (simp add: updateSettings_def maybeLogout_version)

lemma version_interfere_mono: "settingsVersion c \<le> settingsVersion (interfere au e c)"
  by (cases e) (simp_all add: version_updateSettings_mono maybeLogin_version maybeLogout_version)

lemma version_fold_mono: "settingsVersion c \<le> settingsVersion (fold (interfere au) ops c)"
proof (induction ops arbitrary: c)
  case Nil
  show ?case by simp
next
  case (Cons e ops)
  have "settingsVersion c \<le> settingsVersion (interfere au e c)" by (rule version_interfere_mono)
  also have "\<dots> \<le> settingsVersion (fold (interfere au) ops (interfere au e c))" by (rule Cons)
  finally show ?case by simp
qed

lemma version_suspend_mono: "settingsVersion c \<le> settingsVersion (fst (suspend au sched c))"
  by (cases sched) (simp_all add: version_fold_mono)

lemma attempt_sched_le:
  assumes "attempt au fn sched options c = (p, c', sched')"
  shows "length sched' \<le> length sched"
proof -
  obtain ret c1 where l: "maybeLogin au None c = (ret, c1)" by (cases "maybeLogin au None c")
  obtain c2 sched2 where s2: "suspend au sched c1 = (c2, sched2)" by (cases "suspend au sched c1")
  have a: "length sched2 \<le> length sched" using suspend_sched_le [of au sched c1] s2 by simp
  have b: "length (snd (suspend au sched2 x)) \<le> length sched" for x
    using suspend_sched_le [of au sched2 x] a by simp
  show ?thesis
    using assms a b
    by (auto simp: attempt_def l s2 Let_def
        split: if_splits client_result.splits prod.splits net_outcome.splits rest_response.splits)
      (metis snd_conv)+
qed

lemma attempt_Restart_lt:
  assumes "attempt au fn sched options c = (Restart, c', sched')"
  shows "length sched' < length sched"
proof -
  obtain ret c1 where l: "maybeLogin au None c = (ret, c1)" by (cases "maybeLogin au None c")
  obtain c2 sched2 where s2: "suspend au sched c1 = (c2, sched2)" by (cases "suspend au sched c1")
  have v1: "settingsVersion c1 = settingsVersion c" using maybeLogin_version [of au None c] l by simp
  have a: "length sched2 \<le> length sched" using suspend_sched_le [of au sched c1] s2 by simp
  have a': "settingsVersion c2 \<noteq> settingsVersion c \<Longrightarrow> length sched2 < length sched"
    using suspend_changed_lt [of au sched c1] s2 v1 by simp
  have b: "settingsVersion (fst (suspend au sched2 (c2\<lparr>requests := x\<rparr>))) \<noteq> settingsVersion c2
      \<Longrightarrow> length (snd (suspend au sched2 (c2\<lparr>requests := x\<rparr>))) < length sched" for x
    using suspend_changed_lt [of au sched2 "c2\<lparr>requests := x\<rparr>"] a by simp
  show ?thesis
    using assms a' b
    by (auto simp: attempt_def l s2 Let_def
        split: if_splits client_result.splits prod.splits net_outcome.splits rest_response.splits)
      (metis fst_conv snd_conv)+
qed

lemma attempt_endpoint_calls:
  assumes "attempt au fn sched options c = (p, c', sched')"
  shows "endpoint_calls (requests c') \<le> endpoint_calls (requests c) + 1"
proof -
  obtain ret c1 where l: "maybeLogin au None c = (ret, c1)" by (cases "maybeLogin au None c")
  obtain c2 sched2 where s2: "suspend au sched c1 = (c2, sched2)" by (cases "suspend au sched c1")
  have e1: "endpoint_calls (requests c1) = endpoint_calls (requests c)"
    using endpoint_calls_maybeLogin [of au None c] l by simp
  have e2: "endpoint_calls (requests c2) = endpoint_calls (requests c)"
    using endpoint_calls_suspend [of au sched c1] s2 e1 by simp
  have e3: "endpoint_calls (requests (fst (suspend au sched2
        (c2\<lparr>requests := requests c2 @ [EndpointReq b sid options]\<rparr>))))
      = endpoint_calls (requests c) + 1" for b sid
    using endpoint_calls_suspend [of au sched2 "c2\<lparr>requests := requests c2 @ [EndpointReq b sid options]\<rparr>"] e2
    by (simp add: endpoint_calls_def)
  show ?thesis
    using assms e2 e3
    by (auto simp: attempt_def l s2 Let_def
        split: if_splits client_result.splits prod.splits net_outcome.splits rest_response.splits)
      (metis fst_conv order_refl)+
qed

lemma attempt_version_mono:
  assumes "attempt au fn sched options c = (p, c', sched')"
  shows "settingsVersion c \<le> settingsVersion c'"
proof -
  obtain ret c1 where l: "maybeLogin au None c = (ret, c1)" by (cases "maybeLogin au None c")
  obtain c2 sched2 where s2: "suspend au sched c1 = (c2, sched2)" by (cases "suspend au sched c1")
  have v1: "settingsVersion c1 = settingsVersion c" using maybeLogin_version [of au None c] l by simp
  have v2: "settingsVersion c \<le> settingsVersion c2"
    using version_suspend_mono [of c1 au sched] s2 v1 by simp
  have v3: "settingsVersion c \<le> settingsVersion (fst (suspend au sched2 (c2\<lparr>requests := x\<rparr>)))" for x
    using version_suspend_mono [of "c2\<lparr>requests := x\<rparr>" au sched2] v2 by simp
  show ?thesis
    using assms v2 v3
    by (auto simp: attempt_def l s2 Let_def
        split: if_splits client_result.splits prod.splits net_outcome.splits rest_response.splits)
      (metis fst_conv)+
qed

lemma attempt_Restart_version:
  assumes "attempt au fn sched options c = (Restart, c', sched')"
  shows "settingsVersion c < settingsVersion c'"
proof -
  have "settingsVersion c' \<noteq> settingsVersion c"
    using assms
    by (auto simp: attempt_def Let_def
        split: if_splits client_result.splits prod.splits net_outcome.splits rest_response.splits)
  with attempt_version_mono [OF assms] show ?thesis by simp
qed

text \<open>
  The endpoint function is invoked at most twice for each value the settings version
  has during the call: once, and once more for the one retry.
\<close>

lemma wrappedFunction_epoch_bound:
  "endpoint_calls (requests (snd (wrappedFunction au fn apiGroup sched options retry c)))
       + 2 * settingsVersion c
     \<le> endpoint_calls (requests c)
       + 2 * settingsVersion (snd (wrappedFunction au fn apiGroup sched options retry c))
       + (if retry then 2 else 1)"
proof (induction "2 * length sched + (if retry then 1 else 0 :: nat)"
    arbitrary: sched retry c rule: less_induct)
  case less
  obtain p c' sched' where a: "attempt au fn sched options c = (p, c', sched')"
    by (cases "attempt au fn sched options c")
  note le = attempt_sched_le [OF a] and calls = attempt_endpoint_calls [OF a]
    and mono = attempt_version_mono [OF a]
  show ?case
  proof (cases p)
    case Restart
    with a have lt: "length sched' < length sched" and v: "settingsVersion c < settingsVersion c'"
      using attempt_Restart_lt attempt_Restart_version by metis+
    have eq: "wrappedFunction au fn apiGroup sched options retry c
        = wrappedFunction au fn apiGroup sched' options True c'"
      by (subst wrappedFunction_attempt) (simp add: a Restart)
    have "endpoint_calls (requests (snd (wrappedFunction au fn apiGroup sched' options True c')))
          + 2 * settingsVersion c'
        \<le> endpoint_calls (requests c')
          + 2 * settingsVersion (snd (wrappedFunction au fn apiGroup sched' options True c')) + 2"
      using less [of sched' True c'] lt by simp
    with calls v show ?thesis unfolding eq by simp
  next
    case (Returned r)
    have "wrappedFunction au fn apiGroup sched options retry c = (r, c')"
      by (subst wrappedFunction_attempt) (simp add: a Returned)
    with calls mono show ?thesis by simp
  next
    case (Thrown e)
    have "wrappedFunction au fn apiGroup sched options retry c
        = (ConnFailure (ConnectionFailure_from e), c')"
      by (subst wrappedFunction_attempt) (simp add: a Thrown)
    with calls mono show ?thesis by simp
  next
    case (Failing result)
    show ?thesis
    proof (cases "retry \<and> routineFailure result")
      case True
      have eq: "wrappedFunction au fn apiGroup sched options retry c
          = wrappedFunction au fn apiGroup sched' options False (c'\<lparr>loginPromise := None\<rparr>)"
        by (subst wrappedFunction_attempt) (simp add: a Failing True)
      have "endpoint_calls (requests (snd (wrappedFunction au fn apiGroup sched' options False
                (c'\<lparr>loginPromise := None\<rparr>))))
            + 2 * settingsVersion (c'\<lparr>loginPromise := None\<rparr>)
          \<le> endpoint_calls (requests (c'\<lparr>loginPromise := None\<rparr>))
            + 2 * settingsVersion (snd (wrappedFunction au fn apiGroup sched' options False
                (c'\<lparr>loginPromise := None\<rparr>))) + 1"
        using less [of sched' False "c'\<lparr>loginPromise := None\<rparr>"] le True by simp
      with calls mono True show ?thesis unfolding eq by simp
    next
      case False
      have "wrappedFunction au fn apiGroup sched options retry c = (surfaced apiGroup result, c')"
        by (subst wrappedFunction_attempt) (use False in \<open>auto simp: a Failing\<close>)
      with calls mono show ?thesis by simp
    qed
  qed
qed

section \<open>Call proxy: the connection failures it returns\<close>

lemma well_tagged_from: "well_tagged (ConnectionFailure_from e)"
  by (cases e) simp_all

lemma ClientRequestResult_from_not_conn [simp]:
  "ClientRequestResult_from response g \<noteq> ConnFailure f"
  by (cases response) simp_all

lemma settle_well_tagged: "settle au outcome = ConnFailure f \<Longrightarrow> well_tagged f"
  by (auto simp: settle_def well_tagged_from split: net_outcome.splits)

lemma login_chain_well_tagged:
  "snd (login_chain au s request log) = ConnFailure f \<Longrightarrow> well_tagged f"
  by (auto simp: login_chain_def Let_def settle_well_tagged
      split: net_outcome.splits rest_response.splits prod.splits if_splits)

lemma cache_well_tagged_cleared: "loginPromise c = None \<Longrightarrow> cache_well_tagged c"
  by (simp add: cache_well_tagged_def)

lemma cache_well_tagged_requests [simp]:
  "cache_well_tagged (c\<lparr>requests := x\<rparr>) = cache_well_tagged c"
  by (simp add: cache_well_tagged_def)

lemma cache_well_tagged_maybeLogin:
  assumes "cache_well_tagged c"
  shows "cache_well_tagged (snd (maybeLogin au request c))"
proof (cases "getValidatedSettings c")
  case None
  with assms show ?thesis by (simp add: maybeLogin_missing)
next
  case (Some s)
  show ?thesis
  proof (cases "loginPromise c")
    case None
    with Some show ?thesis
      by (auto simp: maybeLogin_fresh cache_well_tagged_def login_chain_well_tagged
          split: client_result.splits)
  next
    case (Some p)
    with \<open>getValidatedSettings c = Some s\<close> assms show ?thesis by (simp add: maybeLogin_cached)
  qed
qed

lemma awaited_maybeLogin_well_tagged:
  assumes "cache_well_tagged c" and "awaited (fst (maybeLogin au request c)) = ConnFailure f"
  shows "well_tagged f"
proof (cases "getValidatedSettings c")
  case None
  with assms show ?thesis by (auto simp: maybeLogin_missing)
next
  case (Some s)
  show ?thesis
  proof (cases "loginPromise c")
    case None
    with Some assms show ?thesis
      by (auto simp: maybeLogin_fresh login_chain_well_tagged)
  next
    case (Some p)
    with \<open>getValidatedSettings c = Some s\<close> assms show ?thesis
      by (auto simp: maybeLogin_cached cache_well_tagged_def)
  qed
qed

lemma cache_well_tagged_maybeLogout: "cache_well_tagged (snd (maybeLogout au request c))"
  by (simp add: cache_well_tagged_cleared maybeLogout_cleared)

lemma cache_well_tagged_updateSettings:
  "cache_well_tagged c \<Longrightarrow> cache_well_tagged (snd (updateSettings au new c))"
  by (simp add: updateSettings_def cache_well_tagged_maybeLogout)

lemma cache_well_tagged_interfere:
  "cache_well_tagged c \<Longrightarrow> cache_well_tagged (interfere au e c)"
  by (cases e)
    (simp_all add: cache_well_tagged_updateSettings cache_well_tagged_maybeLogin
      cache_well_tagged_maybeLogout cache_well_tagged_cleared)

lemma cache_well_tagged_fold:
  "cache_well_tagged c \<Longrightarrow> cache_well_tagged (fold (interfere au) ops c)"
  by (induction ops arbitrary: c) (simp_all add: cache_well_tagged_interfere)

lemma cache_well_tagged_suspend:
  "cache_well_tagged c \<Longrightarrow> cache_well_tagged (fst (suspend au sched c))"
  by (cases sched) (simp_all add: cache_well_tagged_fold)

lemma attempt_well_tagged:
  assumes "attempt au fn sched options c = (p, c', sched')" and "cache_well_tagged c"
  shows "cache_well_tagged c' \<and> (\<forall>f. p = Failing (Conn f) \<longrightarrow> well_tagged f)
         \<and> (\<forall>f. p = Returned (ConnFailure f) \<longrightarrow> well_tagged f)"
proof -
  obtain ret c1 where l: "maybeLogin au None c = (ret, c1)" by (cases "maybeLogin au None c")
  obtain c2 sched2 where s2: "suspend au sched c1 = (c2, sched2)" by (cases "suspend au sched c1")
  have t1: "cache_well_tagged c1"
    using cache_well_tagged_maybeLogin [OF assms(2), of au None] l by simp
  have r: "awaited ret = ConnFailure f \<Longrightarrow> well_tagged f" for f
    using awaited_maybeLogin_well_tagged [OF assms(2), of au None f] l by simp
  have t2: "cache_well_tagged c2" using cache_well_tagged_suspend [OF t1, of au sched] s2 by simp
  have t3: "cache_well_tagged (fst (suspend au sched2 (c2\<lparr>requests := x\<rparr>)))" for x
    using cache_well_tagged_suspend [of "c2\<lparr>requests := x\<rparr>" au sched2] t2 by simp
  show ?thesis
    using assms(1) t2 t3 r
    by (auto simp: attempt_def l s2 Let_def
        split: if_splits client_result.splits prod.splits net_outcome.splits rest_response.splits)
      (metis fst_conv)+
qed

lemma wrappedFunction_well_tagged:
  assumes "cache_well_tagged c"
  shows "cache_well_tagged (snd (wrappedFunction au fn apiGroup sched options retry c))
       \<and> (\<forall>f. fst (wrappedFunction au fn apiGroup sched options retry c) = ConnFailure f
              \<longrightarrow> well_tagged f)"
  using assms
proof (induction "2 * length sched + (if retry then 1 else 0 :: nat)"
    arbitrary: sched retry c rule: less_induct)
  case less
  obtain p c' sched' where a: "attempt au fn sched options c = (p, c', sched')"
    by (cases "attempt au fn sched options c")
  note le = attempt_sched_le [OF a] and tagged = attempt_well_tagged [OF a less.prems]
  show ?case
  proof (cases p)
    case Restart
    with a have lt: "length sched' < length sched" using attempt_Restart_lt by metis
    have eq: "wrappedFunction au fn apiGroup sched options retry c
        = wrappedFunction au fn apiGroup sched' options True c'"
      by (subst wrappedFunction_attempt) (simp add: a Restart)
    show ?thesis unfolding eq using less.hyps [of sched' True c'] lt tagged by simp
  next
    case (Returned r)
    have "wrappedFunction au fn apiGroup sched options retry c = (r, c')"
      by (subst wrappedFunction_attempt) (simp add: a Returned)
    with tagged Returned show ?thesis by simp
  next
    case (Thrown e)
    have "wrappedFunction au fn apiGroup sched options retry c
        = (ConnFailure (ConnectionFailure_from e), c')"
      by (subst wrappedFunction_attempt) (simp add: a Thrown)
    with tagged show ?thesis by (simp add: well_tagged_from)
  next
    case (Failing result)
    show ?thesis
    proof (cases "retry \<and> routineFailure result")
      case True
      have eq: "wrappedFunction au fn apiGroup sched options retry c
          = wrappedFunction au fn apiGroup sched' options False (c'\<lparr>loginPromise := None\<rparr>)"
        by (subst wrappedFunction_attempt) (simp add: a Failing True)
      show ?thesis
        unfolding eq
        using less.hyps [of sched' False "c'\<lparr>loginPromise := None\<rparr>"] le True
        by (simp add: cache_well_tagged_cleared)
    next
      case False
      have "wrappedFunction au fn apiGroup sched options retry c = (surfaced apiGroup result, c')"
        by (subst wrappedFunction_attempt) (use False in \<open>auto simp: a Failing\<close>)
      with tagged Failing show ?thesis by (cases result) simp_all
    qed
  qed
qed

section \<open>Call proxy: retry, surfacing, thrown errors, restart\<close>

text \<open>
  C1. Take a call with retrying enabled whose first pass ends, at an unchanged settings
  version, with a failure handed to \<open>maybeLogoutAndRetry\<close>: the login result when it is
  a connection failure or a failure response, or the endpoint's failure response. When
  that failure is a connection failure or has code 106 or 105, the call is the call
  with retrying disabled, started on the client with the cached login promise
  discarded. When the version does not change during that second pass either,
  whatever the second pass ends with is returned (its success, its thrown error
  classified, or its failure surfaced), the client is as the second pass left it, and
  the endpoint function was invoked at most twice in all.
\<close>

theorem retry_exactly_once:
  assumes first: "attempt au fn sched options c = (Failing result, c1, sched1)"
      and routine: "routineFailure result"
      and second: "attempt au fn sched1 options (c1\<lparr>loginPromise := None\<rparr>) = (p, c2, sched2)"
      and same: "p \<noteq> Restart"
  shows "wrappedFunction au fn apiGroup sched options True c
           = wrappedFunction au fn apiGroup sched1 options False (c1\<lparr>loginPromise := None\<rparr>)
       \<and> (\<forall>r. p = Returned r \<longrightarrow>
             wrappedFunction au fn apiGroup sched1 options False (c1\<lparr>loginPromise := None\<rparr>)
               = (r, c2))
       \<and> (\<forall>e. p = Thrown e \<longrightarrow>
             wrappedFunction au fn apiGroup sched1 options False (c1\<lparr>loginPromise := None\<rparr>)
               = (ConnFailure (ConnectionFailure_from e), c2))
       \<and> (\<forall>result2. p = Failing result2 \<longrightarrow>
             wrappedFunction au fn apiGroup sched1 options False (c1\<lparr>loginPromise := None\<rparr>)
               = (surfaced apiGroup result2, c2))
       \<and> endpoint_calls (requests c2) \<le> endpoint_calls (requests c) + 2"
proof (intro conjI allI impI)
  show "wrappedFunction au fn apiGroup sched options True c
      = wrappedFunction au fn apiGroup sched1 options False (c1\<lparr>loginPromise := None\<rparr>)"
    by (subst wrappedFunction_attempt) (simp add: first routine)
  show "wrappedFunction au fn apiGroup sched1 options False (c1\<lparr>loginPromise := None\<rparr>) = (r, c2)"
    if "p = Returned r" for r
    by (subst wrappedFunction_attempt) (simp add: second that)
  show "wrappedFunction au fn apiGroup sched1 options False (c1\<lparr>loginPromise := None\<rparr>)
      = (ConnFailure (ConnectionFailure_from e), c2)"
    if "p = Thrown e" for e
    by (subst wrappedFunction_attempt) (simp add: second that)
  show "wrappedFunction au fn apiGroup sched1 options False (c1\<lparr>loginPromise := None\<rparr>)
      = (surfaced apiGroup result2, c2)"
    if "p = Failing result2" for result2
    by (subst wrappedFunction_attempt) (simp add: second that)
  show "endpoint_calls (requests c2) \<le> endpoint_calls (requests c) + 2"
    using attempt_endpoint_calls [OF first] attempt_endpoint_calls [OF second] by simp
qed

theorem retry_exactly_once_witness:
  "attempt auth_ok (fn_code 106) [] () (SynologyClient settings_h)
     = (Failing (Api 106),
        client_with settings_h 0 (Some (LoginPromise 0 (Ok ''sid'')))
          [AuthLoginReq settings_h None 2, EndpointReq (Some ''http://h'') ''sid'' ()],
        [])
   \<and> routineFailure (Api 106)
   \<and> attempt auth_ok (fn_code 106) [] ()
        ((client_with settings_h 0 (Some (LoginPromise 0 (Ok ''sid'')))
            [AuthLoginReq settings_h None 2, EndpointReq (Some ''http://h'') ''sid'' ()])
           \<lparr>loginPromise := None\<rparr>)
     = (Failing (Api 106),
        client_with settings_h 0 (Some (LoginPromise 2 (Ok ''sid'')))
          [AuthLoginReq settings_h None 2, EndpointReq (Some ''http://h'') ''sid'' (),
           AuthLoginReq settings_h None 2, EndpointReq (Some ''http://h'') ''sid'' ()],
        [])
   \<and> wrappedFunction auth_ok (fn_code 106) ''SYNO.DownloadStation.Task'' [] () True
        (SynologyClient settings_h)
     = (ApiFailure 106 ''SYNO.DownloadStation.Task'',
        client_with settings_h 0 (Some (LoginPromise 2 (Ok ''sid'')))
          [AuthLoginReq settings_h None 2, EndpointReq (Some ''http://h'') ''sid'' (),
           AuthLoginReq settings_h None 2, EndpointReq (Some ''http://h'') ''sid'' ()])"
proof -
  have first: "attempt auth_ok (fn_code 106) [] () (SynologyClient settings_h)
     = (Failing (Api 106),
        client_with settings_h 0 (Some (LoginPromise 0 (Ok ''sid'')))
          [AuthLoginReq settings_h None 2, EndpointReq (Some ''http://h'') ''sid'' ()],
        [])"
    by (simp add: client_defs scenario_defs)
  have routine: "routineFailure (Api 106)"
    by (simp add: SESSION_TIMEOUT_ERROR_CODE_def)
  have second: "attempt auth_ok (fn_code 106) [] ()
        ((client_with settings_h 0 (Some (LoginPromise 0 (Ok ''sid'')))
            [AuthLoginReq settings_h None 2, EndpointReq (Some ''http://h'') ''sid'' ()])
           \<lparr>loginPromise := None\<rparr>)
     = (Failing (Api 106),
        client_with settings_h 0 (Some (LoginPromise 2 (Ok ''sid'')))
          [AuthLoginReq settings_h None 2, EndpointReq (Some ''http://h'') ''sid'' (),
           AuthLoginReq settings_h None 2, EndpointReq (Some ''http://h'') ''sid'' ()],
        [])"
    by (simp add: client_defs scenario_defs)
  have same: "(Failing (Api 106) :: string pass) \<noteq> Restart" by simp
  show ?thesis
    using first routine second
      retry_exactly_once [OF first routine second same, of "''SYNO.DownloadStation.Task''"]
    by simp
qed

text \<open>
  C7, as the code has it. Two things are left out of the claim. A connection failure
  has no \<open>apiGroup\<close>: with settings without a password the login fails with
  \<open>missing-config\<close>, the call retries, and the retry, its allowance spent, returns the
  bare \<open>missing-config\<close> failure. And a failure response is dropped when the settings
  version has changed by the time it arrives: here the endpoint function answers code
  100, the settings change while the call waits for that answer, and the endpoint
  function is invoked a second time.
\<close>

theorem failure_surfaced_counterexample:
  "wrappedFunction auth_ok (fn_code 100) ''SYNO.DownloadStation.Task'' [] () True
       (SynologyClient settings_no_passwd)
     = (ConnFailure Missing_config, SynologyClient settings_no_passwd)
   \<and> endpoint_calls (requests (snd
        (wrappedFunction auth_ok (fn_code 100) ''SYNO.DownloadStation.Task''
           [[], [OtherUpdateSettings settings_g]] () True (SynologyClient settings_h)))) = 2"
  by code_simp

text \<open>
  C7, amended. Take a call whose pass ends, at an unchanged settings version, with a
  failure handed to \<open>maybeLogoutAndRetry\<close>. When the retry allowance is spent, or the
  failure is a failure response with a code other than 106 and 105, that failure is what
  the call returns, and the client is as the pass left it, so the endpoint function is
  not invoked again (the pass invoked it at most once). A failure response is returned
  with the \<open>apiGroup\<close> of the proxied endpoint, a connection failure as it is.
\<close>

theorem failure_surfaced_without_retry:
  assumes "attempt au fn sched options c = (Failing result, c1, sched1)"
      and "\<not> shouldRetryRoutineFailures \<or> \<not> routineFailure result"
  shows "wrappedFunction au fn apiGroup sched options shouldRetryRoutineFailures c
           = (surfaced apiGroup result, c1)
       \<and> (\<forall>code. result = Api code \<longrightarrow>
             fst (wrappedFunction au fn apiGroup sched options shouldRetryRoutineFailures c)
               = ApiFailure code apiGroup)
       \<and> (\<forall>f. result = Conn f \<longrightarrow>
             fst (wrappedFunction au fn apiGroup sched options shouldRetryRoutineFailures c)
               = ConnFailure f)
       \<and> (\<forall>code. routineFailure (Api code) \<longleftrightarrow> code = 106 \<or> code = 105)
       \<and> endpoint_calls (requests c1) \<le> endpoint_calls (requests c) + 1"
proof -
  have w: "wrappedFunction au fn apiGroup sched options shouldRetryRoutineFailures c
      = (surfaced apiGroup result, c1)"
    by (subst wrappedFunction_attempt) (use assms in auto)
  show ?thesis
    using attempt_endpoint_calls [OF assms(1)]
    by (auto simp: w SESSION_TIMEOUT_ERROR_CODE_def NO_PERMISSIONS_ERROR_CODE_def)
qed

theorem failure_surfaced_without_retry_witness:
  "attempt auth_ok (fn_code 100) [] () (SynologyClient settings_h)
     = (Failing (Api 100),
        client_with settings_h 0 (Some (LoginPromise 0 (Ok ''sid'')))
          [AuthLoginReq settings_h None 2, EndpointReq (Some ''http://h'') ''sid'' ()],
        [])
   \<and> \<not> routineFailure (Api 100)
   \<and> wrappedFunction auth_ok (fn_code 100) ''SYNO.DownloadStation.Task'' [] () True
        (SynologyClient settings_h)
     = (ApiFailure 100 ''SYNO.DownloadStation.Task'',
        client_with settings_h 0 (Some (LoginPromise 0 (Ok ''sid'')))
          [AuthLoginReq settings_h None 2, EndpointReq (Some ''http://h'') ''sid'' ()])"
proof -
  have pass: "attempt auth_ok (fn_code 100) [] () (SynologyClient settings_h)
     = (Failing (Api 100),
        client_with settings_h 0 (Some (LoginPromise 0 (Ok ''sid'')))
          [AuthLoginReq settings_h None 2, EndpointReq (Some ''http://h'') ''sid'' ()],
        [])"
    by (simp add: client_defs scenario_defs)
  have other: "\<not> True \<or> \<not> routineFailure (Api 100)"
    by (simp add: SESSION_TIMEOUT_ERROR_CODE_def NO_PERMISSIONS_ERROR_CODE_def)
  show ?thesis
    using pass other
      failure_surfaced_without_retry [OF pass other, of "''SYNO.DownloadStation.Task''"]
    by simp
qed

text \<open>
  C9. The call returns for every server, endpoint function and schedule
  (\<open>wrappedFunction\<close> is total), and what it returns is a value of the result union.
  An error the endpoint function throws ends the pass; the outermost handler turns it
  into the connection failure \<open>ConnectionFailure.from\<close> gives, which is what the call
  returns. An error a login or logout request throws is turned into a connection failure
  by the same classifier. The classifier tags a \<open>BadResponseError\<close> with status 400 as
  probable-wrong-protocol, a \<open>NetworkError\<close> as
  probable-wrong-url-or-no-connection-or-cert-error, a \<open>TimeoutError\<close> as timeout and
  anything else as unknown, and keeps the error. So, on a client whose cached login is
  tagged that way, every connection failure a call returns is \<open>missing-config\<close> or
  carries the error that fits its tag.
\<close>

theorem thrown_errors_become_connection_failures:
  "(attempt au fn sched options c = (Thrown e, c1, sched1) \<longrightarrow>
      wrappedFunction au fn apiGroup sched options shouldRetryRoutineFailures c
        = (ConnFailure (ConnectionFailure_from e), c1))
   \<and> settle au (Rejects e) = ConnFailure (ConnectionFailure_from e)
   \<and> ConnectionFailure_from e =
       (case e of
          BadResponseError status \<Rightarrow>
            if status = 400 then Probable_wrong_protocol e else Unknown e
        | NetworkError \<Rightarrow> Probable_wrong_url_or_no_connection_or_cert_error e
        | TimeoutError \<Rightarrow> Timeout e
        | OtherError m \<Rightarrow> Unknown e)
   \<and> (cache_well_tagged c \<longrightarrow>
        (\<forall>f. fst (wrappedFunction au fn apiGroup sched options shouldRetryRoutineFailures c)
                = ConnFailure f \<longrightarrow> well_tagged f))"
proof (intro conjI impI)
  show "wrappedFunction au fn apiGroup sched options shouldRetryRoutineFailures c
      = (ConnFailure (ConnectionFailure_from e), c1)"
    if "attempt au fn sched options c = (Thrown e, c1, sched1)"
    by (subst wrappedFunction_attempt) (simp add: that)
  show "settle au (Rejects e) = ConnFailure (ConnectionFailure_from e)"
    by (simp add: settle_def)
  show "ConnectionFailure_from e =
       (case e of
          BadResponseError status \<Rightarrow>
            if status = 400 then Probable_wrong_protocol e else Unknown e
        | NetworkError \<Rightarrow> Probable_wrong_url_or_no_connection_or_cert_error e
        | TimeoutError \<Rightarrow> Timeout e
        | OtherError m \<Rightarrow> Unknown e)"
    by (cases e) simp_all
  show "\<forall>f. fst (wrappedFunction au fn apiGroup sched options shouldRetryRoutineFailures c)
                = ConnFailure f \<longrightarrow> well_tagged f"
    if "cache_well_tagged c"
    using wrappedFunction_well_tagged [OF that] by blast
qed

theorem thrown_errors_become_connection_failures_witness:
  "attempt auth_ok fn_bad_request [] () logged_in_h
     = (Thrown (BadResponseError 400),
        client_with settings_h 0 (Some (LoginPromise 0 (Ok ''sid'')))
          [AuthLoginReq settings_h None 2, EndpointReq (Some ''http://h'') ''sid'' ()],
        [])
   \<and> cache_well_tagged logged_in_h
   \<and> wrappedFunction auth_ok fn_bad_request ''SYNO.DownloadStation.Task'' [] () True logged_in_h
     = (ConnFailure (Probable_wrong_protocol (BadResponseError 400)),
        client_with settings_h 0 (Some (LoginPromise 0 (Ok ''sid'')))
          [AuthLoginReq settings_h None 2, EndpointReq (Some ''http://h'') ''sid'' ()])
   \<and> well_tagged (Probable_wrong_protocol (BadResponseError 400))"
proof -
  have pass: "attempt auth_ok fn_bad_request [] () logged_in_h
     = (Thrown (BadResponseError 400),
        client_with settings_h 0 (Some (LoginPromise 0 (Ok ''sid'')))
          [AuthLoginReq settings_h None 2, EndpointReq (Some ''http://h'') ''sid'' ()],
        [])"
    by (simp add: client_defs scenario_defs)
  have tagged: "cache_well_tagged logged_in_h"
    by (simp add: cache_well_tagged_def scenario_defs)
  have "wrappedFunction auth_ok fn_bad_request ''SYNO.DownloadStation.Task'' [] () True logged_in_h
     = (ConnFailure (ConnectionFailure_from (BadResponseError 400)),
        client_with settings_h 0 (Some (LoginPromise 0 (Ok ''sid'')))
          [AuthLoginReq settings_h None 2, EndpointReq (Some ''http://h'') ''sid'' ()])"
    using pass
      thrown_errors_become_connection_failures
        [of auth_ok fn_bad_request "[]" "()" logged_in_h "BadResponseError 400"
          "client_with settings_h 0 (Some (LoginPromise 0 (Ok ''sid'')))
             [AuthLoginReq settings_h None 2, EndpointReq (Some ''http://h'') ''sid'' ()]"
          "[]" "''SYNO.DownloadStation.Task''" True]
    by blast
  then show ?thesis
    using pass tagged by simp
qed

text \<open>
  C10. When a pass finds, after the login or after the endpoint call, that the settings
  version is no longer the one it started with, the call is the call started again on
  the client as it then is, with retrying enabled, whether or not the retry allowance
  had been spent. So the endpoint function is invoked at most twice for each value the
  version has during the call, and more than twice in all when the version changes: in
  the scenario below every answer is code 106, the settings change while the retry
  waits for its answer, and the endpoint function is invoked four times.
\<close>

theorem restart_resets_retry_allowance:
  "(maybeLogin au None c = (ret, c1) \<and> suspend au sched c1 = (c2, sched2)
      \<and> settingsVersion c2 \<noteq> settingsVersion c \<longrightarrow>
      wrappedFunction au fn apiGroup sched options shouldRetryRoutineFailures c
        = wrappedFunction au fn apiGroup sched2 options True c2)
   \<and> (maybeLogin au None c = (ret, c1) \<and> suspend au sched c1 = (c2, sched2)
      \<and> settingsVersion c2 = settingsVersion c \<and> awaited ret = Ok sid
      \<and> fn (requests c2 @ [EndpointReq (baseUrl (settings c2)) sid options]) = Resolves response
      \<and> suspend au sched2
           (c2\<lparr>requests := requests c2 @ [EndpointReq (baseUrl (settings c2)) sid options]\<rparr>)
         = (c3, sched3)
      \<and> settingsVersion c3 \<noteq> settingsVersion c \<longrightarrow>
      wrappedFunction au fn apiGroup sched options shouldRetryRoutineFailures c
        = wrappedFunction au fn apiGroup sched3 options True c3)
   \<and> endpoint_calls (requests (snd
          (wrappedFunction au fn apiGroup sched options shouldRetryRoutineFailures c)))
        + 2 * settingsVersion c
      \<le> endpoint_calls (requests c)
        + 2 * settingsVersion (snd
            (wrappedFunction au fn apiGroup sched options shouldRetryRoutineFailures c))
        + (if shouldRetryRoutineFailures then 2 else 1)
   \<and> endpoint_calls (requests (snd
        (wrappedFunction auth_ok (fn_code 106) ''SYNO.DownloadStation.Task''
           [[], [], [], [OtherUpdateSettings settings_g]] () True (SynologyClient settings_h)))) = 4"
proof (intro conjI impI)
  show "wrappedFunction au fn apiGroup sched options shouldRetryRoutineFailures c
      = wrappedFunction au fn apiGroup sched2 options True c2"
    if "maybeLogin au None c = (ret, c1) \<and> suspend au sched c1 = (c2, sched2)
      \<and> settingsVersion c2 \<noteq> settingsVersion c"
    by (subst wrappedFunction_attempt) (use that in \<open>simp add: attempt_def\<close>)
  show "wrappedFunction au fn apiGroup sched options shouldRetryRoutineFailures c
      = wrappedFunction au fn apiGroup sched3 options True c3"
    if "maybeLogin au None c = (ret, c1) \<and> suspend au sched c1 = (c2, sched2)
      \<and> settingsVersion c2 = settingsVersion c \<and> awaited ret = Ok sid
      \<and> fn (requests c2 @ [EndpointReq (baseUrl (settings c2)) sid options]) = Resolves response
      \<and> suspend au sched2
           (c2\<lparr>requests := requests c2 @ [EndpointReq (baseUrl (settings c2)) sid options]\<rparr>)
         = (c3, sched3)
      \<and> settingsVersion c3 \<noteq> settingsVersion c"
    by (subst wrappedFunction_attempt) (use that in \<open>simp add: attempt_def\<close>)
  show "endpoint_calls (requests (snd
          (wrappedFunction au fn apiGroup sched options shouldRetryRoutineFailures c)))
        + 2 * settingsVersion c
      \<le> endpoint_calls (requests c)
        + 2 * settingsVersion (snd
            (wrappedFunction au fn apiGroup sched options shouldRetryRoutineFailures c))
        + (if shouldRetryRoutineFailures then 2 else 1)"
    by (rule wrappedFunction_epoch_bound)
  show "endpoint_calls (requests (snd
        (wrappedFunction auth_ok (fn_code 106) ''SYNO.DownloadStation.Task''
           [[], [], [], [OtherUpdateSettings settings_g]] () True (SynologyClient settings_h)))) = 4"
    by code_simp
qed

theorem restart_resets_retry_allowance_witness:
  "maybeLogin auth_ok None (SynologyClient settings_h)
     = (ReturnPromise (LoginPromise 0 (Ok ''sid'')), logged_in_h)
   \<and> suspend auth_ok [[OtherUpdateSettings settings_g]] logged_in_h
     = (client_with settings_g 1 None
          [AuthLoginReq settings_h None 2, AuthLogoutReq (Some ''http://g'') None ''sid'' (Some ''S'')],
        [])
   \<and> settingsVersion (client_with settings_g 1 None
          [AuthLoginReq settings_h None 2, AuthLogoutReq (Some ''http://g'') None ''sid'' (Some ''S'')])
       \<noteq> settingsVersion (SynologyClient settings_h :: (unit, unit) client)
   \<and> wrappedFunction auth_ok fn_ok ''SYNO.DownloadStation.Task''
        [[OtherUpdateSettings settings_g]] () False (SynologyClient settings_h)
     = wrappedFunction auth_ok fn_ok ''SYNO.DownloadStation.Task'' [] () True
        (client_with settings_g 1 None
          [AuthLoginReq settings_h None 2, AuthLogoutReq (Some ''http://g'') None ''sid'' (Some ''S'')])"
proof -
  have login: "maybeLogin auth_ok None (SynologyClient settings_h)
     = (ReturnPromise (LoginPromise 0 (Ok ''sid'')), logged_in_h)"
    by (rule logged_in_h_reached)
  have wait: "suspend auth_ok [[OtherUpdateSettings settings_g]] logged_in_h
     = (client_with settings_g 1 None
          [AuthLoginReq settings_h None 2, AuthLogoutReq (Some ''http://g'') None ''sid'' (Some ''S'')],
        [])"
    by (simp add: client_defs scenario_defs)
  have changed: "settingsVersion (client_with settings_g 1 None
          [AuthLoginReq settings_h None 2, AuthLogoutReq (Some ''http://g'') None ''sid'' (Some ''S'')])
       \<noteq> settingsVersion (SynologyClient settings_h :: (unit, unit) client)"
    by (simp add: scenario_defs)
  show ?thesis
    using login wait changed
      restart_resets_retry_allowance
        [of auth_ok "SynologyClient settings_h" "ReturnPromise (LoginPromise 0 (Ok ''sid''))"
          logged_in_h "[[OtherUpdateSettings settings_g]]"
          "client_with settings_g 1 None
             [AuthLoginReq settings_h None 2, AuthLogoutReq (Some ''http://g'') None ''sid'' (Some ''S'')]"
          "[]" fn_ok "''SYNO.DownloadStation.Task''" "()" False]
    by blast
qed

end
